theory Spec2Isabelle
  imports Main "HOL-Library.AList"
begin

section \<open>JavaScript strings and values\<close>

text \<open>
  The control application (\<^verbatim>\<open>control/src/app.ts\<close>) is embedded function by function.
  A JavaScript string is a \<^typ>\<open>string\<close>; a character stands for one code unit in the
  range U+0000 to U+00FF. \<^verbatim>\<open>String.prototype.trim\<close> removes the white space of that
  range (tab, line feed, vertical tab, form feed, carriage return, space, no-break space),
  and \<^verbatim>\<open>toLowerCase\<close> maps A to Z and the upper-case letters of the Latin-1 block.
\<close>

definition is_space :: "char \<Rightarrow> bool" where
  "is_space c = (of_char c \<in> {9, 10, 11, 12, 13, 32, 160 :: nat})"

definition js_trim :: "string \<Rightarrow> string" where
  "js_trim s = rev (dropWhile is_space (rev (dropWhile is_space s)))"

definition is_upper :: "nat \<Rightarrow> bool" where
  "is_upper n = ((65 \<le> n \<and> n \<le> 90) \<or> (192 \<le> n \<and> n \<le> 222 \<and> n \<noteq> 215))"

definition lower_char :: "char \<Rightarrow> char" where
  "lower_char c = (if is_upper (of_char c) then char_of (of_char c + 32 :: nat) else c)"

definition toLowerCase :: "string \<Rightarrow> string" where
  "toLowerCase s = map lower_char s"

text \<open>\<^verbatim>\<open>s.split(sep)\<close> for a one-character separator: never the empty list.\<close>

fun split_on :: "char \<Rightarrow> string \<Rightarrow> string list" where
  "split_on sep [] = [[]]"
| "split_on sep (c # cs) =
     (if c = sep then [] # split_on sep cs
      else (case split_on sep cs of
              [] \<Rightarrow> [[c]]
            | w # ws \<Rightarrow> (c # w) # ws))"

text \<open>\<^verbatim>\<open>xs.join(sep)\<close> on an array of strings.\<close>

fun join :: "string \<Rightarrow> string list \<Rightarrow> string" where
  "join sep [] = []"
| "join sep [x] = x"
| "join sep (x # y # ys) = x @ sep @ join sep (y # ys)"

text \<open>
  A value as \<^verbatim>\<open>JSON.parse\<close> returns it. Numbers are the integers (rendered in decimal,
  as JavaScript renders an integer of magnitude below \<open>10^21\<close>); an object is the list
  of its properties, whose keys are distinct after parsing.
\<close>

datatype jsval =
    JNull
  | JBool bool
  | JNum int
  | JStr string
  | JArr "jsval list"
  | JObj "(string \<times> jsval) list"

text \<open>Truthiness, as \<^verbatim>\<open>if (v)\<close> and \<^verbatim>\<open>!v\<close> test it.\<close>

fun truthy :: "jsval \<Rightarrow> bool" where
  "truthy JNull = False"
| "truthy (JBool b) = b"
| "truthy (JNum n) = (n \<noteq> 0)"
| "truthy (JStr s) = (s \<noteq> [])"
| "truthy (JArr xs) = True"
| "truthy (JObj kvs) = True"

text \<open>A value that may be \<^verbatim>\<open>undefined\<close> is an option; \<^verbatim>\<open>undefined\<close> is falsy.\<close>

fun truthy_opt :: "jsval option \<Rightarrow> bool" where
  "truthy_opt None = False"
| "truthy_opt (Some v) = truthy v"

fun digit :: "nat \<Rightarrow> char" where
  "digit n = char_of (48 + n)"

fun show_nat :: "nat \<Rightarrow> string" where
  "show_nat n = (if n < 10 then [digit n] else show_nat (n div 10) @ [digit (n mod 10)])"

declare show_nat.simps [simp del]

definition show_int :: "int \<Rightarrow> string" where
  "show_int i = (if i < 0 then CHR ''-'' # show_nat (nat (- i)) else show_nat (nat i))"

text \<open>The string a template literal \<^verbatim>\<open>`${v}`\<close> inserts for a value.\<close>

fun to_str :: "jsval \<Rightarrow> string" where
  "to_str JNull = ''null''"
| "to_str (JBool b) = (if b then ''true'' else ''false'')"
| "to_str (JNum n) = show_int n"
| "to_str (JStr s) = s"
| "to_str (JArr xs) = join '','' (map (\<lambda>x. if x = JNull then [] else to_str x) xs)"
| "to_str (JObj kvs) = ''[object Object]''"

text \<open>
  \<^verbatim>\<open>config[field]\<close> for one of the field names the application reads: an own property
  of an object, \<^verbatim>\<open>undefined\<close> on every other truthy value.
\<close>

fun get_field :: "jsval \<Rightarrow> string \<Rightarrow> jsval option" where
  "get_field (JObj kvs) f = map_of kvs f"
| "get_field v f = None"

text \<open>A thrown \<^verbatim>\<open>Error\<close>, with its message.\<close>

datatype exn = Exn string

fun message :: "exn \<Rightarrow> string" where
  "message (Exn m) = m"

text \<open>\<^verbatim>\<open>err.message || dflt\<close>.\<close>

definition message_or :: "exn \<Rightarrow> string \<Rightarrow> string" where
  "message_or e dflt = (if message e \<noteq> [] then message e else dflt)"

definition dq :: string where
  "dq = [CHR 0x22]"

section \<open>The filter compiler: \<^verbatim>\<open>buildWiresharkFilterFromConfig\<close>\<close>

text \<open>
  \<^verbatim>\<open>multiFilter(field, cb)\<close>: \<^verbatim>\<open>undefined\<close> for a falsy field and for a field with no
  value left after trimming; a truthy value that is no string has no \<^verbatim>\<open>split\<close>, and the
  call throws a \<^verbatim>\<open>TypeError\<close>.
\<close>

definition field_values :: "string \<Rightarrow> string list" where
  "field_values s = filter (\<lambda>v. v \<noteq> []) (map js_trim (split_on CHR '','' s))"

definition not_a_function :: exn where
  "not_a_function = Exn ''config[field].split is not a function''"

definition multiFilter :: "jsval \<Rightarrow> string \<Rightarrow> (string \<Rightarrow> string) \<Rightarrow> exn + string option" where
  "multiFilter config field cb =
     (case get_field config field of
        None \<Rightarrow> Inr None
      | Some v \<Rightarrow>
          if \<not> truthy v then Inr None
          else (case v of
                  JStr s \<Rightarrow>
                    (let values = field_values s
                     in if values = [] then Inr None
                        else Inr (Some (join '' or '' (map cb values))))
                | _ \<Rightarrow> Inl not_a_function))"

text \<open>\<^verbatim>\<open>const f = multiFilter(field, cb); if (f) filters.push(`(${f})`);\<close>\<close>

definition push_multi ::
  "jsval \<Rightarrow> string \<Rightarrow> (string \<Rightarrow> string) \<Rightarrow> string list \<Rightarrow> exn + string list" where
  "push_multi config field cb filters =
     (case multiFilter config field cb of
        Inl e \<Rightarrow> Inl e
      | Inr None \<Rightarrow> Inr filters
      | Inr (Some f) \<Rightarrow>
          if f \<noteq> [] then Inr (filters @ [''('' @ f @ '')'']) else Inr filters)"

text \<open>The thirteen callbacks and clauses, in the order of the source.\<close>

definition cb_ip :: "string \<Rightarrow> string" where
  "cb_ip ip = ''ip.addr == '' @ ip"

definition cb_port :: "string \<Rightarrow> string" where
  "cb_port port = ''(tcp.port == '' @ port @ '' or udp.port == '' @ port @ '')''"

definition cb_protocol :: "string \<Rightarrow> string" where
  "cb_protocol proto = toLowerCase proto"

definition cb_sourceIp :: "string \<Rightarrow> string" where
  "cb_sourceIp ip = ''ip.src == '' @ ip"

definition cb_destinationIp :: "string \<Rightarrow> string" where
  "cb_destinationIp ip = ''ip.dst == '' @ ip"

definition cb_sourcePort :: "string \<Rightarrow> string" where
  "cb_sourcePort port = ''(tcp.srcport == '' @ port @ '' or udp.srcport == '' @ port @ '')''"

definition cb_destinationPort :: "string \<Rightarrow> string" where
  "cb_destinationPort port = ''(tcp.dstport == '' @ port @ '' or udp.dstport == '' @ port @ '')''"

definition cb_tcpFlags :: "string \<Rightarrow> string" where
  "cb_tcpFlags flag = ''tcp.flags.'' @ toLowerCase flag @ '' == 1''"

definition cb_payloadContent :: "string \<Rightarrow> string" where
  "cb_payloadContent content = ''frame contains '' @ dq @ content @ dq"

definition cb_macAddress :: "string \<Rightarrow> string" where
  "cb_macAddress mac = ''eth.addr == '' @ mac"

definition push_packetSizeMin :: "jsval \<Rightarrow> string list \<Rightarrow> exn + string list" where
  "push_packetSizeMin config filters =
     (case get_field config ''packetSizeMin'' of
        None \<Rightarrow> Inr filters
      | Some v \<Rightarrow>
          if truthy v then Inr (filters @ [''frame.len >= '' @ to_str v]) else Inr filters)"

definition push_packetSizeMax :: "jsval \<Rightarrow> string list \<Rightarrow> exn + string list" where
  "push_packetSizeMax config filters =
     (case get_field config ''packetSizeMax'' of
        None \<Rightarrow> Inr filters
      | Some v \<Rightarrow>
          if truthy v then Inr (filters @ [''frame.len <= '' @ to_str v]) else Inr filters)"

text \<open>
  \<^verbatim>\<open>const [start, end] = config.timeRange.split('/')\<close>: the first two pieces, the second
  \<^verbatim>\<open>undefined\<close> when there is no slash; further pieces are dropped.
\<close>

definition time_clauses :: "string \<Rightarrow> string list" where
  "time_clauses s =
     (let parts = split_on CHR ''/'' s;
          start = (case parts of [] \<Rightarrow> [] | a # _ \<Rightarrow> a);
          end' = (case parts of a # b # _ \<Rightarrow> b | _ \<Rightarrow> [])
      in (if start \<noteq> [] then [''frame.time >= '' @ dq @ start @ dq] else []) @
         (if end' \<noteq> [] then [''frame.time <= '' @ dq @ end' @ dq] else []))"

definition push_timeRange :: "jsval \<Rightarrow> string list \<Rightarrow> exn + string list" where
  "push_timeRange config filters =
     (case get_field config ''timeRange'' of
        None \<Rightarrow> Inr filters
      | Some v \<Rightarrow>
          if \<not> truthy v then Inr filters
          else (case v of
                  JStr s \<Rightarrow> Inr (filters @ time_clauses s)
                | _ \<Rightarrow> Inl (Exn ''config.timeRange.split is not a function'')))"

text \<open>Statements run in sequence on the array \<^verbatim>\<open>filters\<close>; a throw ends the run.\<close>

fun run_steps :: "('s \<Rightarrow> exn + 's) list \<Rightarrow> 's \<Rightarrow> exn + 's" where
  "run_steps [] s = Inr s"
| "run_steps (f # fs) s = (case f s of Inl e \<Rightarrow> Inl e | Inr s' \<Rightarrow> run_steps fs s')"

definition build_steps :: "jsval \<Rightarrow> (string list \<Rightarrow> exn + string list) list" where
  "build_steps config =
     [push_multi config ''ip'' cb_ip,
      push_multi config ''port'' cb_port,
      push_multi config ''protocol'' cb_protocol,
      push_multi config ''sourceIp'' cb_sourceIp,
      push_multi config ''destinationIp'' cb_destinationIp,
      push_multi config ''sourcePort'' cb_sourcePort,
      push_multi config ''destinationPort'' cb_destinationPort,
      push_packetSizeMin config,
      push_packetSizeMax config,
      push_timeRange config,
      push_multi config ''tcpFlags'' cb_tcpFlags,
      push_multi config ''payloadContent'' cb_payloadContent,
      push_multi config ''macAddress'' cb_macAddress]"

definition buildWiresharkFilterFromConfig :: "jsval \<Rightarrow> exn + string" where
  "buildWiresharkFilterFromConfig config =
     (case run_steps (build_steps config) [] of
        Inl e \<Rightarrow> Inl e
      | Inr filters \<Rightarrow> Inr (join '' and '' filters))"

section \<open>The capture store and the external tools\<close>

text \<open>
  The capture store is the directory \<^verbatim>\<open>/data\<close>: a list of entries, each a file name with
  its content, names distinct. A path \<^verbatim>\<open>path.join(pcapDir, name)\<close> is represented by
  \<open>name\<close>. A file holds either the serialisation of a JSON value (what
  \<^verbatim>\<open>JSON.stringify\<close> writes and \<^verbatim>\<open>JSON.parse\<close> reads back) or other bytes.
  File-system calls on the store succeed; \<^verbatim>\<open>logEvent\<close>, which only appends to
  \<^verbatim>\<open>control.log\<close>, is left out.
\<close>

datatype content = Raw string | Json jsval

type_synonym store = "(string \<times> content) list"

definition readdir :: "store \<Rightarrow> string list" where
  "readdir st = map fst st"

definition existsSync :: "store \<Rightarrow> string \<Rightarrow> bool" where
  "existsSync st f = (map_of st f \<noteq> None)"

definition unlink :: "store \<Rightarrow> string \<Rightarrow> store" where
  "unlink st f = AList.delete f st"

definition writeFile :: "store \<Rightarrow> string \<Rightarrow> content \<Rightarrow> store" where
  "writeFile st f c = AList.update f c st"

definition readFile :: "store \<Rightarrow> string \<Rightarrow> exn + content" where
  "readFile st f =
     (case map_of st f of
        None \<Rightarrow> Inl (Exn ''ENOENT: no such file or directory'')
      | Some c \<Rightarrow> Inr c)"

definition JSON_parse :: "content \<Rightarrow> exn + jsval" where
  "JSON_parse c =
     (case c of
        Raw bytes \<Rightarrow> Inl (Exn ''Unexpected token in JSON'')
      | Json v \<Rightarrow> Inr v)"

definition endsWith :: "string \<Rightarrow> string \<Rightarrow> bool" where
  "endsWith s suf = (length suf \<le> length s \<and> drop (length s - length suf) s = suf)"

definition mergedPcapFile :: string where
  "mergedPcapFile = ''merged.pcap''"

definition jsonOutputFile :: string where
  "jsonOutputFile = ''output.json''"

definition filteredPcapFile :: string where
  "filteredPcapFile = ''filtered.pcap''"

definition filteredJsonFile :: string where
  "filteredJsonFile = ''filtered.json''"

definition configFilePath :: string where
  "configFilePath = ''config.json''"

text \<open>
  The file an agent writes: \<^verbatim>\<open>/data/dumpfile_${containerName}.pcap\<close>
  (\<^verbatim>\<open>monitoring/src/app.ts\<close>).
\<close>

definition rawCaptureFile :: "string \<Rightarrow> string" where
  "rawCaptureFile containerName = ''dumpfile_'' @ containerName @ ''.pcap''"

text \<open>
  The shell commands handed to \<^verbatim>\<open>exec\<close>, by their arguments:
  \<^verbatim>\<open>mergecap -w out in...\<close>, \<^verbatim>\<open>tshark -r in -T json > out\<close>,
  \<^verbatim>\<open>tshark -r in -Y "expr" -w out\<close> and \<^verbatim>\<open>cp in out\<close>.
\<close>

datatype command =
    Mergecap string "string list"
  | TsharkJson string string
  | TsharkFilter string string string
  | Cp string string

fun target :: "command \<Rightarrow> string" where
  "target (Mergecap out ins) = out"
| "target (TsharkJson inp out) = out"
| "target (TsharkFilter inp expr out) = out"
| "target (Cp inp out) = out"

text \<open>
  What the coordinator does not decide: whether an agent answers its start and stop
  request, and what \<^verbatim>\<open>mergecap\<close> and \<^verbatim>\<open>tshark\<close> do with a command on a store (the
  error handed to the callback, if any, and the content written to the target, if any).
\<close>

record env =
  agent_start :: "string \<Rightarrow> bool"
  agent_stop :: "string \<Rightarrow> bool"
  tool :: "command \<Rightarrow> store \<Rightarrow> exn option \<times> content option"

text \<open>
  \<^verbatim>\<open>exec(cmd, callback)\<close> inside a promise: the error rejects it. \<^verbatim>\<open>cp\<close> copies an
  existing file and fails on a missing one.
\<close>

fun exec :: "env \<Rightarrow> command \<Rightarrow> store \<Rightarrow> exn option \<times> store" where
  "exec e (Cp inp out) st =
     (case map_of st inp of
        None \<Rightarrow> (Some (Exn ''Command failed: cp''), st)
      | Some c \<Rightarrow> (None, writeFile st out c))"
| "exec e cmd st =
     (case tool e cmd st of
        (err, None) \<Rightarrow> (err, st)
      | (err, Some c) \<Rightarrow> (err, writeFile st (target cmd) c))"

section \<open>The pipeline: merge, decode, filter\<close>

text \<open>The files \<^verbatim>\<open>mergePcaps\<close> hands to \<^verbatim>\<open>mergecap\<close>, once the old merge is removed.\<close>

definition pcapFiles :: "store \<Rightarrow> string list" where
  "pcapFiles st = filter (\<lambda>file. endsWith file ''.pcap'') (readdir (unlink st mergedPcapFile))"

definition mergePcaps :: "env \<Rightarrow> store \<Rightarrow> exn option \<times> store" where
  "mergePcaps e st =
     (let st1 = unlink st mergedPcapFile
      in if length (pcapFiles st) = 0
         then (Some (Exn ''No .pcap files found to merge.''), st1)
         else exec e (Mergecap mergedPcapFile (pcapFiles st)) st1)"

definition pcapToJson :: "env \<Rightarrow> string \<Rightarrow> string \<Rightarrow> store \<Rightarrow> exn option \<times> store" where
  "pcapToJson e pcapFile jsonFile st = exec e (TsharkJson pcapFile jsonFile) st"

datatype filter_status = ok | ko

text \<open>The result \<^verbatim>\<open>{ status, filteredJsonData?, errorMsg? }\<close>.\<close>

type_synonym filter_result = "filter_status \<times> jsval option \<times> string option"

text \<open>\<^verbatim>\<open>err?.message || String(err)\<close>; an \<^verbatim>\<open>Error\<close> with no message prints as its name.\<close>

definition err_text :: "exn \<Rightarrow> string" where
  "err_text e = message_or e ''Error''"

definition filtering_failed :: "exn \<Rightarrow> filter_result" where
  "filtering_failed e = (ko, None, Some (''Filtering failed: '' @ err_text e))"

definition filterPcapAndJson ::
  "env \<Rightarrow> string \<Rightarrow> string \<Rightarrow> store \<Rightarrow> filter_result \<times> store" where
  "filterPcapAndJson e merged filterString st =
     (let filterCmd =
            (if filterString \<noteq> [] then TsharkFilter merged filterString filteredPcapFile
             else Cp merged filteredPcapFile)
      in case exec e filterCmd st of
           (Some err, st1) \<Rightarrow> (filtering_failed err, st1)
         | (None, st1) \<Rightarrow>
             (case pcapToJson e filteredPcapFile filteredJsonFile st1 of
                (Some err, st2) \<Rightarrow> (filtering_failed err, st2)
              | (None, st2) \<Rightarrow>
                  (case map_of st2 filteredJsonFile of
                     None \<Rightarrow>
                       ((ko, None, Some ''Filtered JSON file not found after filtering.''), st2)
                   | Some c \<Rightarrow>
                       (case JSON_parse c of
                          Inl err \<Rightarrow> (filtering_failed err, st2)
                        | Inr filteredJsonData \<Rightarrow> ((ok, Some filteredJsonData, None), st2)))))"

definition getLatestConfig :: "store \<Rightarrow> exn + jsval option" where
  "getLatestConfig st =
     (case map_of st configFilePath of
        None \<Rightarrow> Inr None
      | Some c \<Rightarrow> (case JSON_parse c of Inl err \<Rightarrow> Inl err | Inr v \<Rightarrow> Inr (Some v)))"

definition saveConfig :: "store \<Rightarrow> jsval \<Rightarrow> store" where
  "saveConfig st config = writeFile st configFilePath (Json config)"

definition clearOldPcaps :: "store \<Rightarrow> store" where
  "clearOldPcaps st =
     (let st1 = foldl (\<lambda>s file. if endsWith file ''.pcap'' then unlink s file else s) st (readdir st);
          st2 = (if existsSync st1 jsonOutputFile then unlink st1 jsonOutputFile else st1);
          st3 = (if existsSync st2 filteredPcapFile then unlink st2 filteredPcapFile else st2)
      in if existsSync st3 filteredJsonFile then unlink st3 filteredJsonFile else st3)"

section \<open>The endpoints\<close>

datatype agent_status = success | failed

type_synonym agent_result = "string \<times> agent_status"

text \<open>
  The responses: \<^verbatim>\<open>res.status(n).send(text)\<close>; the body of \<^verbatim>\<open>/start\<close> (its results);
  the body of \<^verbatim>\<open>/stop\<close> (results, \<^verbatim>\<open>pcapData\<close>, \<^verbatim>\<open>filterStatus\<close>, \<^verbatim>\<open>error\<close>); the
  body of \<^verbatim>\<open>/config\<close> (status, message, \<^verbatim>\<open>pcapData\<close>, \<^verbatim>\<open>error\<close>); the body of
  \<^verbatim>\<open>/cleanConf\<close> (status, message).
\<close>

datatype response =
    Send nat string
  | StartJson "agent_result list"
  | StopJson "agent_result list" jsval "filter_status option" "string option"
  | ConfigJson nat string "jsval option" "string option"
  | CleanJson nat string

text \<open>\<^verbatim>\<open>GET /server-name/:containerName\<close>, on the array \<^verbatim>\<open>containerNames\<close>.\<close>

definition register :: "string list \<Rightarrow> string \<Rightarrow> string list \<times> response" where
  "register containerNames containerName =
     (if containerName \<notin> set containerNames
      then (containerNames @ [containerName],
            Send 200 (''Container name received: '' @ containerName))
      else (containerNames, Send 200 (''Container name received: '' @ containerName)))"

text \<open>A sequence of registrations, from the left.\<close>

definition register_all :: "string list \<Rightarrow> string list \<Rightarrow> string list" where
  "register_all containerNames reqs = foldl (\<lambda>names c. fst (register names c)) containerNames reqs"

definition broadcast :: "(string \<Rightarrow> bool) \<Rightarrow> string list \<Rightarrow> agent_result list" where
  "broadcast call containerNames =
     map (\<lambda>containerName. (containerName, if call containerName then success else failed))
       containerNames"

definition app_get_start :: "env \<Rightarrow> string list \<Rightarrow> store \<Rightarrow> store \<times> response" where
  "app_get_start e containerNames st =
     (if length containerNames = 0 then (st, Send 400 ''No container names available to start.'')
      else (clearOldPcaps st, StartJson (broadcast (agent_start e) containerNames)))"

text \<open>
  The part of \<^verbatim>\<open>/stop\<close> inside \<^verbatim>\<open>if (config) { ... }\<close>: the three variables
  \<^verbatim>\<open>filterStatus\<close>, \<^verbatim>\<open>filteredJsonData\<close>, \<^verbatim>\<open>errorMsg\<close> afterwards.
\<close>

definition stop_filter ::
  "env \<Rightarrow> jsval option \<Rightarrow> store \<Rightarrow>
   store \<times> (exn + filter_status option \<times> jsval option \<times> string option)" where
  "stop_filter e config st =
     (case config of
        None \<Rightarrow> (st, Inr (None, None, None))
      | Some c \<Rightarrow>
          if \<not> truthy c then (st, Inr (None, None, None))
          else (case buildWiresharkFilterFromConfig c of
                  Inl err \<Rightarrow> (st, Inl err)
                | Inr filterString \<Rightarrow>
                    (case filterPcapAndJson e mergedPcapFile filterString st of
                       ((status, filteredJsonData, errorMsg), st') \<Rightarrow>
                         (st', Inr (Some status, filteredJsonData, errorMsg)))))"

text \<open>\<^verbatim>\<open>filteredJsonData || JSON.parse(jsonData)\<close>.\<close>

definition pcapData_of :: "jsval option \<Rightarrow> content \<Rightarrow> exn + jsval" where
  "pcapData_of filteredJsonData jsonData =
     (case filteredJsonData of
        None \<Rightarrow> JSON_parse jsonData
      | Some v \<Rightarrow> if truthy v then Inr v else JSON_parse jsonData)"

text \<open>The \<^verbatim>\<open>try\<close> block of \<^verbatim>\<open>/stop\<close>: the store afterwards, and the throw or the body.\<close>

definition stop_try :: "env \<Rightarrow> agent_result list \<Rightarrow> store \<Rightarrow> store \<times> (exn + response)" where
  "stop_try e results st =
     (case mergePcaps e st of
        (Some err, st1) \<Rightarrow> (st1, Inl err)
      | (None, st1) \<Rightarrow>
          (case pcapToJson e mergedPcapFile jsonOutputFile st1 of
             (Some err, st2) \<Rightarrow> (st2, Inl err)
           | (None, st2) \<Rightarrow>
               (case getLatestConfig st2 of
                  Inl err \<Rightarrow> (st2, Inl err)
                | Inr config \<Rightarrow>
                    (case readFile st2 jsonOutputFile of
                       Inl err \<Rightarrow> (st2, Inl err)
                     | Inr jsonData \<Rightarrow>
                         (case stop_filter e config st2 of
                            (st3, Inl err) \<Rightarrow> (st3, Inl err)
                          | (st3, Inr (filterStatus, filteredJsonData, errorMsg)) \<Rightarrow>
                              (case pcapData_of filteredJsonData jsonData of
                                 Inl err \<Rightarrow> (st3, Inl err)
                               | Inr pcapData \<Rightarrow>
                                   (st3, Inr (StopJson results pcapData filterStatus
                                     (if filterStatus = Some ko then errorMsg else None)))))))))"

text \<open>
  \<^verbatim>\<open>GET /stop\<close>. The store is the directory as it stands when the five seconds after the
  stop requests have passed.
\<close>

definition app_get_stop :: "env \<Rightarrow> string list \<Rightarrow> store \<Rightarrow> store \<times> response" where
  "app_get_stop e containerNames st =
     (if length containerNames = 0 then (st, Send 400 ''No container names available to stop.'')
      else (case stop_try e (broadcast (agent_stop e) containerNames) st of
              (st', Inr body) \<Rightarrow> (st', body)
            | (st', Inl err) \<Rightarrow> (st', Send 500 (message_or err ''Failed to process pcap files.''))))"

text \<open>The three-way answer at the end of \<^verbatim>\<open>POST /config\<close>.\<close>

definition config_response :: "filter_result \<Rightarrow> response" where
  "config_response r =
     (case r of (filterStatus, filteredJsonData, errorMsg) \<Rightarrow>
        if filterStatus = ok \<and> truthy_opt filteredJsonData
        then ConfigJson 200 ''Configuration saved and filtering succeeded'' filteredJsonData None
        else if filterStatus = ko
        then ConfigJson 422 ''Configuration saved but filtering failed'' None errorMsg
        else ConfigJson 200 ''Configuration saved successfully (no merged.pcap to filter yet)''
               None None)"

text \<open>\<^verbatim>\<open>POST /config\<close>, on the parsed request body.\<close>

definition app_post_config :: "env \<Rightarrow> store \<Rightarrow> jsval \<Rightarrow> store \<times> response" where
  "app_post_config e st config =
     (if \<not> truthy config then (st, ConfigJson 400 ''Invalid configuration data'' None None)
      else (let st1 = saveConfig st config
            in if existsSync st1 mergedPcapFile
               then (case buildWiresharkFilterFromConfig config of
                       Inl err \<Rightarrow> (st1, ConfigJson 500 ''Failed to save configuration'' None None)
                     | Inr filterString \<Rightarrow>
                         (case filterPcapAndJson e mergedPcapFile filterString st1 of
                            (r, st2) \<Rightarrow> (st2, config_response r)))
               else (st1, config_response (ko, None, None))))"

definition filesToRemove :: "string list" where
  "filesToRemove = [''config.json'', ''filtered.pcap'', ''filtered.json'']"

text \<open>\<^verbatim>\<open>GET /cleanConf\<close>.\<close>

definition app_get_cleanConf :: "store \<Rightarrow> store \<times> response" where
  "app_get_cleanConf st =
     (foldl (\<lambda>s file. if existsSync s file then unlink s file else s) st filesToRemove,
      CleanJson 200 ''Config and filtered files cleaned.'')"

section \<open>The compiler, as the specification words it\<close>

text \<open>
  The field table of the specification and its sentences on values, written on list
  functions of the library and on nothing of the code model but the character classes:
  values are separated by commas, trimmed, and blank ones dropped; a field with no value
  left is absent; the sub-expressions of the fields are joined by \<^verbatim>\<open>and\<close> in the order
  of the table.
\<close>

definition white :: "char \<Rightarrow> bool" where
  "white c =
     (c \<in> set [CHR 0x09, CHR 0x0A, CHR 0x0B, CHR 0x0C, CHR 0x0D, CHR 0x20, CHR 0xA0])"

text \<open>A value without the white space at its two ends.\<close>

definition strip :: "string \<Rightarrow> string" where
  "strip s =
     (let t = dropWhile white s
      in take (length t - length (takeWhile white (rev t))) t)"

text \<open>The text before the first separator, and the text after it.\<close>

definition before :: "char \<Rightarrow> string \<Rightarrow> string" where
  "before sep s = takeWhile (\<lambda>c. c \<noteq> sep) s"

definition after :: "char \<Rightarrow> string \<Rightarrow> string" where
  "after sep s = drop 1 (dropWhile (\<lambda>c. c \<noteq> sep) s)"

text \<open>The entries of a separated list: cut at the first separator, then go on.\<close>

function pieces :: "char \<Rightarrow> string \<Rightarrow> string list" where
  "pieces sep s =
     (if sep \<in> set s then before sep s # pieces sep (after sep s) else [s])"
  by pat_completeness auto
termination
proof (relation "measure (\<lambda>(sep, s). length s)")
  show "wf (measure (\<lambda>(sep, s). length s))"
    by simp
next
  fix sep :: char and s :: string
  assume "sep \<in> set s"
  then have "dropWhile (\<lambda>c. c \<noteq> sep) s \<noteq> []"
    by (simp add: dropWhile_eq_Nil_conv)
  then have "length (after sep s) < length (dropWhile (\<lambda>c. c \<noteq> sep) s)"
    by (simp add: after_def)
  also have "\<dots> \<le> length s"
    by (rule length_dropWhile_le)
  finally show "((sep, after sep s), (sep, s)) \<in> measure (\<lambda>(sep, s). length s)"
    by simp
qed

declare pieces.simps [simp del]

text \<open>The surviving values of a comma-separated field.\<close>

definition surviving :: "string \<Rightarrow> string list" where
  "surviving s = filter (\<lambda>v. v \<noteq> []) (map strip (pieces CHR '','' s))"

text \<open>Expressions joined by a connective.\<close>

fun sep_by :: "string \<Rightarrow> string list \<Rightarrow> string" where
  "sep_by sep [] = []"
| "sep_by sep (x # xs) = x @ concat (map (\<lambda>y. sep @ y) xs)"

text \<open>The sub-expression of a list of alternatives; none for no alternative.\<close>

definition any_of :: "string list \<Rightarrow> string list" where
  "any_of ps = (if ps = [] then [] else [''('' @ sep_by '' or '' ps @ '')''])"

definition quoted :: "string \<Rightarrow> string" where
  "quoted t = CHR 0x22 # t @ [CHR 0x22]"

definition at_or_after :: "string \<Rightarrow> string list" where
  "at_or_after t = (if t = [] then [] else [''frame.time >= '' @ quoted t])"

definition at_or_before :: "string \<Rightarrow> string list" where
  "at_or_before t = (if t = [] then [] else [''frame.time <= '' @ quoted t])"

text \<open>
  The expansions of the table: the \<^verbatim>\<open>or\<close> of one predicate per value, a lower bound and
  an upper bound on the frame length, and a time range \<^verbatim>\<open><start>/<end>\<close>. The predicates
  are those of the decoder's filter grammar, which writes protocol and flag names in lower
  case.
\<close>

datatype expansion = AnyOf "string \<Rightarrow> string" | AtLeast | AtMost | Between

definition field_table :: "(string \<times> expansion) list" where
  "field_table =
     [(''ip'', AnyOf (\<lambda>a. ''ip.addr == '' @ a)),
      (''port'', AnyOf (\<lambda>p. ''(tcp.port == '' @ p @ '' or udp.port == '' @ p @ '')'')),
      (''protocol'', AnyOf (\<lambda>n. toLowerCase n)),
      (''sourceIp'', AnyOf (\<lambda>a. ''ip.src == '' @ a)),
      (''destinationIp'', AnyOf (\<lambda>a. ''ip.dst == '' @ a)),
      (''sourcePort'', AnyOf (\<lambda>p. ''(tcp.srcport == '' @ p @ '' or udp.srcport == '' @ p @ '')'')),
      (''destinationPort'',
         AnyOf (\<lambda>p. ''(tcp.dstport == '' @ p @ '' or udp.dstport == '' @ p @ '')'')),
      (''packetSizeMin'', AtLeast),
      (''packetSizeMax'', AtMost),
      (''timeRange'', Between),
      (''tcpFlags'', AnyOf (\<lambda>n. ''tcp.flags.'' @ toLowerCase n @ '' == 1'')),
      (''payloadContent'', AnyOf (\<lambda>t. ''frame contains '' @ quoted t)),
      (''macAddress'', AnyOf (\<lambda>a. ''eth.addr == '' @ a))]"

text \<open>
  The sub-expressions of one field, in the specification's words: every value is trimmed,
  and a blank one is dropped.
\<close>

fun expand :: "expansion \<Rightarrow> string \<Rightarrow> string list" where
  "expand (AnyOf p) s = any_of (map p (surviving s))"
| "expand AtLeast s = (if strip s = [] then [] else [''frame.len >= '' @ strip s])"
| "expand AtMost s = (if strip s = [] then [] else [''frame.len <= '' @ strip s])"
| "expand Between s =
     at_or_after (strip (before CHR ''/'' s)) @ at_or_before (strip (after CHR ''/'' s))"

text \<open>
  The same with the three single-valued fields taken as they are: a bound is the whole
  value, untrimmed; the start is the text before the first slash and the end the text
  between the first slash and the second, untrimmed.
\<close>

fun verbatim :: "expansion \<Rightarrow> string \<Rightarrow> string list" where
  "verbatim (AnyOf p) s = any_of (map p (surviving s))"
| "verbatim AtLeast s = (if s = [] then [] else [''frame.len >= '' @ s])"
| "verbatim AtMost s = (if s = [] then [] else [''frame.len <= '' @ s])"
| "verbatim Between s =
     at_or_after (before CHR ''/'' s) @ at_or_before (before CHR ''/'' (after CHR ''/'' s))"

text \<open>The sub-expressions of one row of the table, for a mapping of fields to values.\<close>

definition row :: "(expansion \<Rightarrow> string \<Rightarrow> string list) \<Rightarrow> (string \<rightharpoonup> string) \<Rightarrow>
    string \<times> expansion \<Rightarrow> string list" where
  "row ex m r = (case m (fst r) of None \<Rightarrow> [] | Some s \<Rightarrow> ex (snd r) s)"

definition compile_spec :: "(string \<rightharpoonup> string) \<Rightarrow> string" where
  "compile_spec m = sep_by '' and '' (concat (map (row expand m) field_table))"

definition compile_verbatim :: "(string \<rightharpoonup> string) \<Rightarrow> string" where
  "compile_verbatim m = sep_by '' and '' (concat (map (row verbatim m) field_table))"

text \<open>
  The values on which the two agree: a bound with no white space at its ends, a time
  range with no white space at the ends of its two sides and no second slash.
\<close>

fun plain :: "expansion \<Rightarrow> string \<Rightarrow> bool" where
  "plain (AnyOf p) s = True"
| "plain AtLeast s = (strip s = s)"
| "plain AtMost s = (strip s = s)"
| "plain Between s =
     (strip (before CHR ''/'' s) = before CHR ''/'' s
      \<and> strip (after CHR ''/'' s) = after CHR ''/'' s
      \<and> CHR ''/'' \<notin> set (after CHR ''/'' s))"

definition plain_bounds :: "(string \<rightharpoonup> string) \<Rightarrow> bool" where
  "plain_bounds m =
     list_all (\<lambda>r. case m (fst r) of None \<Rightarrow> True | Some s \<Rightarrow> plain (snd r) s) field_table"

section \<open>The pushes of the compiler, in closed form\<close>

text \<open>
  A filter configuration of the specification: recognised field names with raw string
  values. \<open>config_of\<close> is the request body that carries it.

  The definitions of this section restate the code model on such a configuration, for the
  proofs: what each statement of \<^verbatim>\<open>buildWiresharkFilterFromConfig\<close> pushes, written with
  the code model's own functions. They are no specification.
\<close>

definition config_of :: "(string \<times> string) list \<Rightarrow> jsval" where
  "config_of kvs = JObj (map (\<lambda>(k, v). (k, JStr v)) kvs)"

text \<open>The fields read through \<^verbatim>\<open>multiFilter\<close>, each with its callback.\<close>

definition multi_fields :: "(string \<times> (string \<Rightarrow> string)) list" where
  "multi_fields =
     [(''ip'', cb_ip),
      (''port'', cb_port),
      (''protocol'', cb_protocol),
      (''sourceIp'', cb_sourceIp),
      (''destinationIp'', cb_destinationIp),
      (''sourcePort'', cb_sourcePort),
      (''destinationPort'', cb_destinationPort),
      (''tcpFlags'', cb_tcpFlags),
      (''payloadContent'', cb_payloadContent),
      (''macAddress'', cb_macAddress)]"

text \<open>What the statement after a \<^verbatim>\<open>multiFilter\<close> call pushes for the value \<open>s\<close>.\<close>

definition pushed_or :: "(string \<Rightarrow> string) \<Rightarrow> string \<Rightarrow> string list" where
  "pushed_or p s =
     (if field_values s = [] then []
      else [''('' @ join '' or '' (map p (field_values s)) @ '')''])"

text \<open>What the statements reading the property \<open>f\<close> push for the value \<open>s\<close>.\<close>

definition pushed_by :: "string \<Rightarrow> string \<Rightarrow> string list" where
  "pushed_by f s =
     (case map_of multi_fields f of
        Some p \<Rightarrow> pushed_or p s
      | None \<Rightarrow>
          if s = [] then []
          else if f = ''packetSizeMin'' then [''frame.len >= '' @ s]
          else if f = ''packetSizeMax'' then [''frame.len <= '' @ s]
          else if f = ''timeRange'' then time_clauses s
          else [])"

definition pushed :: "(string \<rightharpoonup> string) \<Rightarrow> string \<Rightarrow> string list" where
  "pushed m f = (case m f of None \<Rightarrow> [] | Some s \<Rightarrow> pushed_by f s)"

text \<open>The recognised field names, in the order in which the source reads them.\<close>

definition field_order :: "string list" where
  "field_order =
     [''ip'', ''port'', ''protocol'', ''sourceIp'', ''destinationIp'', ''sourcePort'',
      ''destinationPort'', ''packetSizeMin'', ''packetSizeMax'', ''timeRange'', ''tcpFlags'',
      ''payloadContent'', ''macAddress'']"

text \<open>The array \<^verbatim>\<open>filters\<close> at the end, joined.\<close>

definition closed_form :: "(string \<rightharpoonup> string) \<Rightarrow> string" where
  "closed_form m = join '' and '' (concat (map (pushed m) field_order))"

section \<open>Environments for the examples\<close>

text \<open>
  An environment in which every agent answers, and a tool fails exactly on the commands
  \<open>fails\<close> selects: a failing tool writes nothing, a decode that succeeds writes one
  packet record, every other tool writes a capture.
\<close>

definition tool_with :: "(command \<Rightarrow> bool) \<Rightarrow> command \<Rightarrow> store \<Rightarrow> exn option \<times> content option" where
  "tool_with fails cmd st =
     (if fails cmd then (Some (Exn ''Command failed''), None)
      else (case cmd of
              TsharkJson inp out \<Rightarrow> (None, Some (Json (JArr [JObj [(''_index'', JStr ''packets'')]])))
            | _ \<Rightarrow> (None, Some (Raw ''pcap''))))"

definition env_with :: "(command \<Rightarrow> bool) \<Rightarrow> env" where
  "env_with fails =
     \<lparr>agent_start = (\<lambda>containerName. True), agent_stop = (\<lambda>containerName. True),
      tool = tool_with fails\<rparr>"

fun is_mergecap :: "command \<Rightarrow> bool" where
  "is_mergecap (Mergecap out ins) = True"
| "is_mergecap cmd = False"

fun is_decode_merged :: "command \<Rightarrow> bool" where
  "is_decode_merged (TsharkJson inp out) = (inp = mergedPcapFile)"
| "is_decode_merged cmd = False"

fun is_tshark_filter :: "command \<Rightarrow> bool" where
  "is_tshark_filter (TsharkFilter inp expr out) = True"
| "is_tshark_filter cmd = False"

fun is_decode_filtered :: "command \<Rightarrow> bool" where
  "is_decode_filtered (TsharkJson inp out) = (inp = filteredPcapFile)"
| "is_decode_filtered cmd = False"

definition never :: "command \<Rightarrow> bool" where
  "never cmd = False"

text \<open>A file name that is the raw capture of some agent.\<close>

definition isRawCapture :: "string \<Rightarrow> bool" where
  "isRawCapture file = (take 9 file = ''dumpfile_'' \<and> endsWith file ''.pcap'' \<and> 14 \<le> length file)"

text \<open>
  An environment in which the agent \<^verbatim>\<open>scan2\<close> does not answer the stop request, and the
  decode of the filtered capture ends without an error and writes what \<open>written\<close> says;
  every other tool succeeds.
\<close>

definition env_filtered_json :: "content option \<Rightarrow> env" where
  "env_filtered_json written =
     \<lparr>agent_start = (\<lambda>containerName. True),
      agent_stop = (\<lambda>containerName. containerName \<noteq> ''scan2''),
      tool = (\<lambda>cmd st. if is_decode_filtered cmd then (None, written)
                        else tool_with never cmd st)\<rparr>"

section \<open>The agent registry\<close>

lemma register_set: "set (fst (register names c)) = insert c (set names)"
  by (auto simp: register_def)

lemma register_distinct: "distinct names \<Longrightarrow> distinct (fst (register names c))"
  by (simp add: register_def)

lemma register_all_set: "set (register_all names reqs) = set names \<union> set reqs"
  unfolding register_all_def
  by (induction reqs arbitrary: names) (auto simp: register_set)

lemma register_all_distinct: "distinct names \<Longrightarrow> distinct (register_all names reqs)"
  unfolding register_all_def
  by (induction reqs arbitrary: names) (auto simp: register_distinct)

text \<open>
  C8. After any sequence of registrations on the empty registry, the registry holds as
  many names as there are distinct names in the sequence; registering a name a second
  time leaves the registry as it is, and every registration is answered with status 200.
\<close>

theorem register_idempotent:
  "length (register_all [] reqs) = card (set reqs)
   \<and> fst (register (fst (register names c)) c) = fst (register names c)
   \<and> snd (register names c) = Send 200 (''Container name received: '' @ c)"
proof -
  have "distinct (register_all [] reqs)"
    by (rule register_all_distinct) simp
  then have "length (register_all [] reqs) = card (set (register_all [] reqs))"
    by (simp add: distinct_card)
  then have "length (register_all [] reqs) = card (set reqs)"
    by (simp add: register_all_set)
  moreover have "fst (register (fst (register names c)) c) = fst (register names c)"
    by (simp add: register_def)
  moreover have "snd (register names c) = Send 200 (''Container name received: '' @ c)"
    by (simp add: register_def)
  ultimately show ?thesis by simp
qed

section \<open>Resetting the configuration\<close>

lemma unlink_if_exists: "(if existsSync s f then unlink s f else s) = unlink s f"
  by (auto simp: existsSync_def unlink_def map_of_eq_None_iff)

lemma unlink_filter: "unlink st f = filter (\<lambda>entry. fst entry \<noteq> f) st"
  by (induction st) (auto simp: unlink_def)

lemma cleanConf_store:
  "fst (app_get_cleanConf st) =
     unlink (unlink (unlink st ''config.json'') ''filtered.pcap'') ''filtered.json''"
  by (simp add: app_get_cleanConf_def filesToRemove_def unlink_if_exists)

text \<open>
  C9. \<^verbatim>\<open>GET /cleanConf\<close> keeps exactly the entries of the store that are not named
  \<^verbatim>\<open>config.json\<close>, \<^verbatim>\<open>filtered.pcap\<close> or \<^verbatim>\<open>filtered.json\<close>, in their order and with
  their content: the three files are gone afterwards, and the merged capture and the raw
  capture of every agent are what they were.
\<close>

theorem cleanConf_frame:
  "fst (app_get_cleanConf st) = filter (\<lambda>entry. fst entry \<notin> set filesToRemove) st
   \<and> map_of (fst (app_get_cleanConf st)) configFilePath = None
   \<and> map_of (fst (app_get_cleanConf st)) filteredPcapFile = None
   \<and> map_of (fst (app_get_cleanConf st)) filteredJsonFile = None
   \<and> map_of (fst (app_get_cleanConf st)) mergedPcapFile = map_of st mergedPcapFile
   \<and> map_of (fst (app_get_cleanConf st)) (rawCaptureFile c) = map_of st (rawCaptureFile c)
   \<and> snd (app_get_cleanConf st) = CleanJson 200 ''Config and filtered files cleaned.''"
proof -
  have a: "fst (app_get_cleanConf st) = filter (\<lambda>entry. fst entry \<notin> set filesToRemove) st"
    unfolding cleanConf_store unlink_filter filesToRemove_def
    by (induction st) auto
  have b: "map_of (fst (app_get_cleanConf st)) f =
             (if f \<in> set filesToRemove then None else map_of st f)" for f
    unfolding cleanConf_store unlink_def filesToRemove_def
    by (simp add: AList.delete_conv')
  have c: "snd (app_get_cleanConf st) = CleanJson 200 ''Config and filtered files cleaned.''"
    by (simp add: app_get_cleanConf_def)
  have d: "rawCaptureFile c \<notin> set filesToRemove"
    by (simp add: filesToRemove_def rawCaptureFile_def)
  have e: "configFilePath \<in> set filesToRemove" "filteredPcapFile \<in> set filesToRemove"
    "filteredJsonFile \<in> set filesToRemove" "mergedPcapFile \<notin> set filesToRemove"
    by (simp_all add: filesToRemove_def configFilePath_def filteredPcapFile_def
        filteredJsonFile_def mergedPcapFile_def)
  from e d have f: "map_of (fst (app_get_cleanConf st)) configFilePath = None"
    "map_of (fst (app_get_cleanConf st)) filteredPcapFile = None"
    "map_of (fst (app_get_cleanConf st)) filteredJsonFile = None"
    "map_of (fst (app_get_cleanConf st)) mergedPcapFile = map_of st mergedPcapFile"
    "map_of (fst (app_get_cleanConf st)) (rawCaptureFile c) = map_of st (rawCaptureFile c)"
    by (simp_all only: b if_True if_False)
  from a f c show ?thesis
    by (intro conjI)
qed

section \<open>The filter compiler in closed form\<close>

lemma get_field_config_of: "get_field (config_of kvs) f = map_option JStr (map_of kvs f)"
  by (simp add: config_of_def map_of_map)

lemma join_nonempty: "xs \<noteq> [] \<Longrightarrow> \<forall>x\<in>set xs. x \<noteq> [] \<Longrightarrow> join sep xs \<noteq> []"
  by (induction sep xs rule: join.induct) auto

lemma field_values_nonempty: "v \<in> set (field_values s) \<Longrightarrow> v \<noteq> []"
  by (simp add: field_values_def)

lemma toLowerCase_Nil_iff: "toLowerCase s = [] \<longleftrightarrow> s = []"
  by (simp add: toLowerCase_def)

lemma multi_fields_nonempty: "map_of multi_fields f = Some cb \<Longrightarrow> v \<noteq> [] \<Longrightarrow> cb v \<noteq> []"
  by (auto simp: multi_fields_def cb_ip_def cb_port_def cb_protocol_def cb_sourceIp_def
      cb_destinationIp_def cb_sourcePort_def cb_destinationPort_def cb_tcpFlags_def
      cb_payloadContent_def cb_macAddress_def toLowerCase_Nil_iff split: if_splits)

lemma field_values_Nil [simp]: "field_values [] = []"
  by (simp add: field_values_def js_trim_def)

lemma push_multi_strings:
  assumes "map_of multi_fields f = Some cb"
  shows "push_multi (config_of kvs) f cb filters = Inr (filters @ pushed (map_of kvs) f)"
proof (cases "map_of kvs f")
  case None
  then show ?thesis
    by (simp add: push_multi_def multiFilter_def get_field_config_of pushed_def)
next
  case (Some s)
  show ?thesis
  proof (cases "field_values s = []")
    case True
    with Some assms show ?thesis
      by (simp add: push_multi_def multiFilter_def get_field_config_of pushed_def
          pushed_by_def pushed_or_def)
  next
    case False
    then have "s \<noteq> []" by auto
    have "\<forall>x\<in>set (map cb (field_values s)). x \<noteq> []"
      using assms by (auto dest: field_values_nonempty multi_fields_nonempty)
    with False have "join '' or '' (map cb (field_values s)) \<noteq> []"
      by (intro join_nonempty) simp_all
    with Some assms False \<open>s \<noteq> []\<close> show ?thesis
      by (simp add: push_multi_def multiFilter_def get_field_config_of pushed_def
          pushed_by_def pushed_or_def)
  qed
qed

lemma push_packetSizeMin_strings:
  "push_packetSizeMin (config_of kvs) filters =
     Inr (filters @ pushed (map_of kvs) ''packetSizeMin'')"
  by (cases "map_of kvs ''packetSizeMin''")
    (simp_all add: push_packetSizeMin_def get_field_config_of pushed_def pushed_by_def
      multi_fields_def)

lemma push_packetSizeMax_strings:
  "push_packetSizeMax (config_of kvs) filters =
     Inr (filters @ pushed (map_of kvs) ''packetSizeMax'')"
  by (cases "map_of kvs ''packetSizeMax''")
    (simp_all add: push_packetSizeMax_def get_field_config_of pushed_def pushed_by_def
      multi_fields_def)

lemma push_timeRange_strings:
  "push_timeRange (config_of kvs) filters =
     Inr (filters @ pushed (map_of kvs) ''timeRange'')"
  by (cases "map_of kvs ''timeRange''")
    (simp_all add: push_timeRange_def get_field_config_of pushed_def pushed_by_def
      multi_fields_def)

lemma multi_fields_lookup:
  "map_of multi_fields ''ip'' = Some cb_ip"
  "map_of multi_fields ''port'' = Some cb_port"
  "map_of multi_fields ''protocol'' = Some cb_protocol"
  "map_of multi_fields ''sourceIp'' = Some cb_sourceIp"
  "map_of multi_fields ''destinationIp'' = Some cb_destinationIp"
  "map_of multi_fields ''sourcePort'' = Some cb_sourcePort"
  "map_of multi_fields ''destinationPort'' = Some cb_destinationPort"
  "map_of multi_fields ''tcpFlags'' = Some cb_tcpFlags"
  "map_of multi_fields ''payloadContent'' = Some cb_payloadContent"
  "map_of multi_fields ''macAddress'' = Some cb_macAddress"
  by (simp_all add: multi_fields_def)

lemma build_strings:
  "buildWiresharkFilterFromConfig (config_of kvs) = Inr (closed_form (map_of kvs))"
  by (simp add: buildWiresharkFilterFromConfig_def build_steps_def closed_form_def
      field_order_def push_multi_strings [OF multi_fields_lookup(1)]
      push_multi_strings [OF multi_fields_lookup(2)]
      push_multi_strings [OF multi_fields_lookup(3)]
      push_multi_strings [OF multi_fields_lookup(4)]
      push_multi_strings [OF multi_fields_lookup(5)]
      push_multi_strings [OF multi_fields_lookup(6)]
      push_multi_strings [OF multi_fields_lookup(7)]
      push_multi_strings [OF multi_fields_lookup(8)]
      push_multi_strings [OF multi_fields_lookup(9)]
      push_multi_strings [OF multi_fields_lookup(10)]
      push_packetSizeMin_strings push_packetSizeMax_strings push_timeRange_strings)


lemma build_order_free:
  assumes "distinct (map fst kvs)" "distinct (map fst kvs')" "set kvs = set kvs'"
  shows "buildWiresharkFilterFromConfig (config_of kvs') =
         buildWiresharkFilterFromConfig (config_of kvs)"
proof -
  from assms have "map_of kvs = map_of kvs'"
    by (simp add: map_of_inject_set)
  then show ?thesis
    by (simp add: build_strings)
qed

text \<open>The equations that evaluate the closed form on a given configuration.\<close>

lemmas compile_eval =
  closed_form_def field_order_def pushed_def pushed_by_def pushed_or_def multi_fields_def
  field_values_def js_trim_def is_space_def time_clauses_def dq_def
  cb_ip_def cb_port_def cb_protocol_def cb_sourceIp_def cb_destinationIp_def cb_sourcePort_def
  cb_destinationPort_def cb_tcpFlags_def cb_payloadContent_def cb_macAddress_def
  toLowerCase_def lower_char_def is_upper_def

section \<open>The filter compiler refines the specification\<close>

lemma white_is_space: "white c = is_space c"
proof -
  have h: "(of_char c = (n :: nat)) = (c = char_of n)" if "n < 256" for n
    using that by (metis char_of_char of_char_of mod_less)
  have e: "char_of (9 :: nat) = CHR 0x09" "char_of (10 :: nat) = CHR 0x0A"
    "char_of (11 :: nat) = CHR 0x0B" "char_of (12 :: nat) = CHR 0x0C"
    "char_of (13 :: nat) = CHR 0x0D" "char_of (32 :: nat) = CHR 0x20"
    "char_of (160 :: nat) = CHR 0xA0"
    by (simp_all add: char_of_eq_iff)
  show ?thesis
    by (simp add: white_def is_space_def h e)
qed

lemma white_eq: "white = is_space"
  by (rule ext) (rule white_is_space)

lemma strip_js_trim: "strip s = js_trim s"
proof -
  let ?t = "dropWhile is_space s"
  let ?r = "rev ?t"
  have "?r = takeWhile is_space ?r @ dropWhile is_space ?r"
    by simp
  then have "rev ?r = rev (dropWhile is_space ?r) @ rev (takeWhile is_space ?r)"
    by (metis rev_append)
  then have t: "?t = rev (dropWhile is_space ?r) @ rev (takeWhile is_space ?r)"
    by simp
  have "length (rev (dropWhile is_space ?r)) = length ?t - length (takeWhile is_space ?r)"
    by (metis t length_append length_rev add_diff_cancel_right')
  then have "take (length ?t - length (takeWhile is_space ?r)) ?t = rev (dropWhile is_space ?r)"
    by (metis t append_eq_conv_conj)
  then show ?thesis
    by (simp add: strip_def js_trim_def white_eq Let_def)
qed

lemma split_on_cut:
  "split_on sep s = (if sep \<in> set s then before sep s # split_on sep (after sep s) else [s])"
  by (induction s) (auto simp: before_def after_def split: list.splits)

lemma pieces_split_on: "pieces sep s = split_on sep s"
proof (induction sep s rule: pieces.induct)
  case (1 sep s)
  show ?case
  proof (cases "sep \<in> set s")
    case True
    with 1 show ?thesis
      by (subst pieces.simps, subst split_on_cut) simp
  next
    case False
    then show ?thesis
      by (subst pieces.simps, subst split_on_cut) simp
  qed
qed

lemma sep_by_join: "sep_by sep xs = join sep xs"
  by (induction sep xs rule: join.induct) simp_all

lemma surviving_field_values: "surviving s = field_values s"
  by (simp add: surviving_def field_values_def pieces_split_on strip_js_trim [abs_def])

lemma before_all: "sep \<notin> set t \<Longrightarrow> before sep t = t"
  by (induction t) (auto simp: before_def)

lemma after_none: "sep \<notin> set t \<Longrightarrow> after sep t = []"
  by (induction t) (auto simp: after_def)

lemma split_on_hd: "\<exists>ws. split_on sep t = before sep t # ws"
  by (subst split_on_cut) (simp add: before_all)

lemma time_clauses_cut:
  "time_clauses s =
     at_or_after (before CHR ''/'' s) @ at_or_before (before CHR ''/'' (after CHR ''/'' s))"
proof (cases "CHR ''/'' \<in> set s")
  case True
  have "split_on CHR ''/'' s = before CHR ''/'' s # split_on CHR ''/'' (after CHR ''/'' s)"
    using True by (subst split_on_cut) simp
  moreover obtain ws where
    "split_on CHR ''/'' (after CHR ''/'' s) = before CHR ''/'' (after CHR ''/'' s) # ws"
    using split_on_hd by blast
  ultimately show ?thesis
    by (simp add: time_clauses_def at_or_after_def at_or_before_def quoted_def dq_def)
next
  case False
  then have a: "split_on CHR ''/'' s = [s]" "before CHR ''/'' s = s" "after CHR ''/'' s = []"
    by (subst split_on_cut, simp_all add: before_all after_none)
  have "before CHR ''/'' [] = []"
    by (simp add: before_def)
  then show ?thesis
    by (simp add: a time_clauses_def at_or_after_def at_or_before_def quoted_def dq_def)
qed

lemma pushed_or_any_of: "pushed_or cb s = any_of (map cb (surviving s))"
  by (simp add: pushed_or_def any_of_def surviving_field_values sep_by_join)

lemma payload_quoted: "cb_payloadContent = (\<lambda>t. ''frame contains '' @ quoted t)"
  by (rule ext) (simp add: cb_payloadContent_def quoted_def dq_def)

lemma pushed_by_rows:
  "pushed_by ''ip'' s = verbatim (AnyOf (\<lambda>a. ''ip.addr == '' @ a)) s"
  "pushed_by ''port'' s =
     verbatim (AnyOf (\<lambda>p. ''(tcp.port == '' @ p @ '' or udp.port == '' @ p @ '')'')) s"
  "pushed_by ''protocol'' s = verbatim (AnyOf (\<lambda>n. toLowerCase n)) s"
  "pushed_by ''sourceIp'' s = verbatim (AnyOf (\<lambda>a. ''ip.src == '' @ a)) s"
  "pushed_by ''destinationIp'' s = verbatim (AnyOf (\<lambda>a. ''ip.dst == '' @ a)) s"
  "pushed_by ''sourcePort'' s =
     verbatim (AnyOf (\<lambda>p. ''(tcp.srcport == '' @ p @ '' or udp.srcport == '' @ p @ '')'')) s"
  "pushed_by ''destinationPort'' s =
     verbatim (AnyOf (\<lambda>p. ''(tcp.dstport == '' @ p @ '' or udp.dstport == '' @ p @ '')'')) s"
  "pushed_by ''packetSizeMin'' s = verbatim AtLeast s"
  "pushed_by ''packetSizeMax'' s = verbatim AtMost s"
  "pushed_by ''tcpFlags'' s =
     verbatim (AnyOf (\<lambda>n. ''tcp.flags.'' @ toLowerCase n @ '' == 1'')) s"
  "pushed_by ''payloadContent'' s = verbatim (AnyOf (\<lambda>t. ''frame contains '' @ quoted t)) s"
  "pushed_by ''macAddress'' s = verbatim (AnyOf (\<lambda>a. ''eth.addr == '' @ a)) s"
  by (simp_all add: pushed_by_def multi_fields_def pushed_or_any_of payload_quoted
      cb_ip_def [abs_def] cb_port_def [abs_def] cb_protocol_def [abs_def]
      cb_sourceIp_def [abs_def] cb_destinationIp_def [abs_def] cb_sourcePort_def [abs_def]
      cb_destinationPort_def [abs_def] cb_tcpFlags_def [abs_def] cb_macAddress_def [abs_def])

lemma pushed_by_timeRange: "pushed_by ''timeRange'' s = verbatim Between s"
proof (cases "s = []")
  case True
  then show ?thesis
    by (simp add: pushed_by_def multi_fields_def at_or_after_def at_or_before_def before_def
        after_def)
next
  case False
  then show ?thesis
    by (simp add: pushed_by_def multi_fields_def time_clauses_cut)
qed

lemma pushed_by_verbatim:
  assumes "r \<in> set field_table"
  shows "pushed_by (fst r) s = verbatim (snd r) s"
proof -
  have "list_all (\<lambda>r. pushed_by (fst r) s = verbatim (snd r) s) field_table"
    unfolding field_table_def
    by (simp only: list.pred_inject fst_conv snd_conv pushed_by_rows pushed_by_timeRange
        simp_thms)
  with assms show ?thesis
    by (simp add: list_all_iff)
qed

lemma pushed_row:
  assumes "r \<in> set field_table"
  shows "pushed m (fst r) = row verbatim m r"
proof -
  have "pushed_by (fst r) s = verbatim (snd r) s" for s
    using assms by (rule pushed_by_verbatim)
  then show ?thesis
    by (cases "m (fst r)") (simp_all add: pushed_def row_def)
qed

lemma closed_form_verbatim: "closed_form m = compile_verbatim m"
proof -
  have "field_order = map fst field_table"
    by (simp add: field_order_def field_table_def)
  moreover have "map (pushed m) (map fst field_table) = map (\<lambda>r. pushed m (fst r)) field_table"
    by (simp add: comp_def)
  ultimately have "map (pushed m) field_order = map (\<lambda>r. pushed m (fst r)) field_table"
    by (simp only:)
  also have "\<dots> = map (row verbatim m) field_table"
    by (rule map_cong [OF refl pushed_row])
  finally show ?thesis
    by (simp only: closed_form_def compile_verbatim_def sep_by_join)
qed

lemma build_verbatim:
  "buildWiresharkFilterFromConfig (config_of kvs) = Inr (compile_verbatim (map_of kvs))"
  by (simp only: build_strings closed_form_verbatim)

lemma plain_verbatim: "plain x s \<Longrightarrow> verbatim x s = expand x s"
proof (cases x)
  case Between
  assume "plain x s"
  with Between show ?thesis
    by (simp add: before_all)
qed auto

lemma compile_plain:
  assumes "plain_bounds m"
  shows "compile_verbatim m = compile_spec m"
proof -
  have "row verbatim m r = row expand m r" if "r \<in> set field_table" for r
  proof (cases "m (fst r)")
    case None
    then show ?thesis by (simp add: row_def)
  next
    case (Some s)
    from assms that have "case m (fst r) of None \<Rightarrow> True | Some s \<Rightarrow> plain (snd r) s"
      by (simp add: plain_bounds_def list_all_iff)
    with Some have "plain (snd r) s" by simp
    with Some show ?thesis
      by (simp add: row_def plain_verbatim)
  qed
  then have "map (row verbatim m) field_table = map (row expand m) field_table"
    by (intro map_cong refl)
  then show ?thesis
    by (simp only: compile_verbatim_def compile_spec_def)
qed

text \<open>
  C4. On every string-valued configuration the compiler returns one sub-expression per
  field with a value left, the values of a comma-separated field joined by \<^verbatim>\<open>or\<close>, the
  sub-expressions joined by \<^verbatim>\<open>and\<close> in the order of the table: the expression of the
  specification with the three single-valued fields taken as they are, and the expression
  of the specification itself when those fields are given as the table gives them (bounds
  and the two sides of the time range without white space at their ends, one slash at
  most). The result depends on the mapping only: two property lists with the same entries
  in different orders compile to the same expression.
\<close>

theorem compile_canonical:
  "buildWiresharkFilterFromConfig (config_of kvs) = Inr (compile_verbatim (map_of kvs))
   \<and> (plain_bounds (map_of kvs) \<longrightarrow>
        buildWiresharkFilterFromConfig (config_of kvs) = Inr (compile_spec (map_of kvs)))
   \<and> (distinct (map fst kvs) \<and> distinct (map fst kvs') \<and> set kvs = set kvs'
        \<longrightarrow> buildWiresharkFilterFromConfig (config_of kvs') =
            buildWiresharkFilterFromConfig (config_of kvs))"
proof (intro conjI impI)
  show "buildWiresharkFilterFromConfig (config_of kvs) = Inr (compile_verbatim (map_of kvs))"
    by (rule build_verbatim)
next
  assume "plain_bounds (map_of kvs)"
  then show "buildWiresharkFilterFromConfig (config_of kvs) = Inr (compile_spec (map_of kvs))"
    by (simp only: build_verbatim compile_plain)
next
  assume "distinct (map fst kvs) \<and> distinct (map fst kvs') \<and> set kvs = set kvs'"
  then show "buildWiresharkFilterFromConfig (config_of kvs') =
      buildWiresharkFilterFromConfig (config_of kvs)"
    using build_order_free by blast
qed

text \<open>The equations that evaluate the specification on a given configuration.\<close>

lemmas spec_eval =
  compile_spec_def compile_verbatim_def row_def field_table_def any_of_def surviving_def
  pieces.simps strip_def white_def before_def after_def at_or_after_def at_or_before_def
  quoted_def plain_bounds_def toLowerCase_def lower_char_def is_upper_def Let_def

theorem compile_canonical_witness:
  "buildWiresharkFilterFromConfig
     (config_of [(''protocol'', ''TCP, udp''), (''timeRange'', ''10:00/11:00''),
        (''packetSizeMax'', ''1500''), (''ip'', ''1.2.3.4'')])
     = Inr (''(ip.addr == 1.2.3.4) and (tcp or udp) and frame.len <= 1500 and frame.time >= ''
            @ quoted ''10:00'' @ '' and frame.time <= '' @ quoted ''11:00'')
   \<and> buildWiresharkFilterFromConfig
     (config_of [(''ip'', ''1.2.3.4''), (''packetSizeMax'', ''1500''),
        (''timeRange'', ''10:00/11:00''), (''protocol'', ''TCP, udp'')])
     = Inr (''(ip.addr == 1.2.3.4) and (tcp or udp) and frame.len <= 1500 and frame.time >= ''
            @ quoted ''10:00'' @ '' and frame.time <= '' @ quoted ''11:00'')"
proof -
  let ?kvs = "[(''protocol'', ''TCP, udp''), (''timeRange'', ''10:00/11:00''),
        (''packetSizeMax'', ''1500''), (''ip'', ''1.2.3.4'')]"
  let ?kvs' = "[(''ip'', ''1.2.3.4''), (''packetSizeMax'', ''1500''),
        (''timeRange'', ''10:00/11:00''), (''protocol'', ''TCP, udp'')]"
  have d: "distinct (map fst ?kvs) \<and> distinct (map fst ?kvs') \<and> set ?kvs = set ?kvs'"
    by auto
  have p: "plain_bounds (map_of ?kvs)"
    by (simp add: spec_eval)
  have v: "compile_spec (map_of ?kvs) =
      ''(ip.addr == 1.2.3.4) and (tcp or udp) and frame.len <= 1500 and frame.time >= ''
        @ quoted ''10:00'' @ '' and frame.time <= '' @ quoted ''11:00''"
    by (simp add: spec_eval char_of_eq_iff)
  note t = compile_canonical [of ?kvs ?kvs']
  have e1: "buildWiresharkFilterFromConfig (config_of ?kvs) = Inr (compile_spec (map_of ?kvs))"
    by (rule t [THEN conjunct2, THEN conjunct1, THEN mp, OF p])
  have e2: "buildWiresharkFilterFromConfig (config_of ?kvs') =
      buildWiresharkFilterFromConfig (config_of ?kvs)"
    by (rule t [THEN conjunct2, THEN conjunct2, THEN mp, OF d])
  show ?thesis
    by (simp only: e2 e1 v simp_thms)
qed

section \<open>Trimming and blank values\<close>

lemma strip_edges:
  assumes "strip s \<noteq> []"
  shows "\<not> white (hd (strip s)) \<and> \<not> white (last (strip s))"
proof -
  let ?t = "dropWhile is_space s"
  let ?u = "dropWhile is_space (rev ?t)"
  from assms have u: "?u \<noteq> []" by (simp add: strip_js_trim js_trim_def)
  have t: "?t \<noteq> []"
  proof
    assume "?t = []"
    then have "?u = []" by (simp only: rev.simps dropWhile.simps)
    with u show False by contradiction
  qed
  have "last (js_trim s) = hd ?u"
    using u by (simp add: js_trim_def last_rev)
  moreover have "\<not> is_space (hd ?u)"
    using u by (rule hd_dropWhile)
  moreover have "hd (js_trim s) = last ?u"
    using u by (simp add: js_trim_def hd_rev)
  moreover have "last ?u = last (rev ?t)"
    using u by (metis takeWhile_dropWhile_id last_appendR)
  moreover have "last (rev ?t) = hd ?t"
    using t by (simp add: last_rev)
  moreover have "\<not> is_space (hd ?t)"
    using t by (rule hd_dropWhile)
  ultimately show ?thesis by (simp add: strip_js_trim white_is_space)
qed

lemma surviving_trimmed:
  assumes "v \<in> set (surviving s)"
  shows "v \<noteq> [] \<and> \<not> white (hd v) \<and> \<not> white (last v)
         \<and> v \<in> strip ` set (pieces CHR '','' s)"
proof -
  from assms obtain piece where p: "piece \<in> set (pieces CHR '','' s)" "v = strip piece" "v \<noteq> []"
    by (auto simp: surviving_def)
  with strip_edges [of piece] show ?thesis by auto
qed

lemma row_update:
  "row ex (m(f \<mapsto> s)) r = (if fst r = f then ex (snd r) s else row ex m r)"
  by (simp add: row_def)

lemma compile_verbatim_cong:
  assumes "\<And>r. r \<in> set field_table \<Longrightarrow> row verbatim m r = row verbatim m' r"
  shows "compile_verbatim m = compile_verbatim m'"
proof -
  have "map (row verbatim m) field_table = map (row verbatim m') field_table"
    by (rule map_cong [OF refl assms])
  then show ?thesis by (simp only: compile_verbatim_def)
qed

lemma table_unique:
  assumes "(f, x) \<in> set field_table" "r \<in> set field_table" "fst r = f"
  shows "snd r = x"
proof -
  have "distinct (map fst field_table)"
    by (simp add: field_table_def)
  then have "map_of field_table f = Some x" "map_of field_table (fst r) = Some (snd r)"
    using assms(1,2) by simp_all
  with assms(3) show ?thesis by simp
qed

lemma blank_field_absent:
  assumes "(f, AnyOf p) \<in> set field_table" "f \<notin> fst ` set kvs" "surviving s = []"
  shows "buildWiresharkFilterFromConfig (config_of ((f, s) # kvs)) =
         buildWiresharkFilterFromConfig (config_of kvs)"
proof -
  have n: "map_of kvs f = None"
    using assms(2) by (simp add: map_of_eq_None_iff)
  have "row verbatim ((map_of kvs)(f \<mapsto> s)) r = row verbatim (map_of kvs) r"
    if "r \<in> set field_table" for r
  proof (cases "fst r = f")
    case True
    with assms(1) that have "snd r = AnyOf p" by (intro table_unique)
    with True n assms(3) show ?thesis
      by (simp add: row_def any_of_def)
  next
    case False
    then show ?thesis by (simp add: row_def)
  qed
  then have "compile_verbatim ((map_of kvs)(f \<mapsto> s)) = compile_verbatim (map_of kvs)"
    by (intro compile_verbatim_cong)
  then show ?thesis by (simp add: build_verbatim)
qed

lemma same_values_same_expression:
  assumes "(f, AnyOf p) \<in> set field_table" "surviving s = surviving s'"
  shows "buildWiresharkFilterFromConfig (config_of ((f, s) # kvs)) =
         buildWiresharkFilterFromConfig (config_of ((f, s') # kvs))"
proof -
  have "row verbatim ((map_of kvs)(f \<mapsto> s)) r = row verbatim ((map_of kvs)(f \<mapsto> s')) r"
    if "r \<in> set field_table" for r
  proof (cases "fst r = f")
    case True
    with assms(1) that have "snd r = AnyOf p" by (intro table_unique)
    with True assms(2) show ?thesis
      by (simp add: row_def)
  next
    case False
    then show ?thesis by (simp add: row_def)
  qed
  then have "compile_verbatim ((map_of kvs)(f \<mapsto> s)) = compile_verbatim ((map_of kvs)(f \<mapsto> s'))"
    by (intro compile_verbatim_cong)
  then show ?thesis by (simp add: build_verbatim)
qed

lemma two_addresses:
  "buildWiresharkFilterFromConfig (config_of [(''ip'', '' 1.2.3.4 , 5.6.7.8 '')]) =
     Inr ''(ip.addr == 1.2.3.4 or ip.addr == 5.6.7.8)''"
  by (simp add: build_verbatim spec_eval)

lemma single_bounds:
  "buildWiresharkFilterFromConfig (config_of [(''packetSizeMin'', s)]) =
     Inr (if s = [] then [] else ''frame.len >= '' @ s)"
  "buildWiresharkFilterFromConfig (config_of [(''packetSizeMax'', s)]) =
     Inr (if s = [] then [] else ''frame.len <= '' @ s)"
  by (simp_all add: build_verbatim compile_verbatim_def row_def field_table_def)

lemma single_range:
  "buildWiresharkFilterFromConfig (config_of [(''timeRange'', s)]) =
     Inr (sep_by '' and ''
       (at_or_after (before CHR ''/'' s) @ at_or_before (before CHR ''/'' (after CHR ''/'' s))))"
  by (simp add: build_verbatim compile_verbatim_def row_def field_table_def)

text \<open>
  C5, amended. On every string-valued configuration the compiler returns the expression
  of the specification with the three single-valued fields taken as they are. So, for each
  of the ten comma-separated fields: the values used are the pieces between commas,
  trimmed, none of them blank or with white space at an end; a field whose pieces are all
  blank compiles as if the field were absent; the expression depends on the field's value
  only through these values; and \<^verbatim>\<open>{ip: " 1.2.3.4 , 5.6.7.8 "}\<close> compiles to the \<^verbatim>\<open>or\<close>
  of two address predicates. A non-empty \<^verbatim>\<open>packetSizeMin\<close> or \<^verbatim>\<open>packetSizeMax\<close> is
  inserted whole, untrimmed; of a \<^verbatim>\<open>timeRange\<close> the text before the first slash and the
  text between the first slash and the second are inserted, untrimmed, each when it is
  not empty.
\<close>

theorem field_value_handling:
  "buildWiresharkFilterFromConfig (config_of kvs) = Inr (compile_verbatim (map_of kvs))
   \<and> (v \<in> set (surviving s) \<longrightarrow>
        v \<noteq> [] \<and> \<not> white (hd v) \<and> \<not> white (last v)
        \<and> v \<in> strip ` set (pieces CHR '','' s))
   \<and> ((f, AnyOf p) \<in> set field_table \<and> f \<notin> fst ` set kvs \<and> surviving s = [] \<longrightarrow>
        buildWiresharkFilterFromConfig (config_of ((f, s) # kvs)) =
        buildWiresharkFilterFromConfig (config_of kvs))
   \<and> ((f, AnyOf p) \<in> set field_table \<and> surviving s = surviving s' \<longrightarrow>
        buildWiresharkFilterFromConfig (config_of ((f, s) # kvs)) =
        buildWiresharkFilterFromConfig (config_of ((f, s') # kvs)))
   \<and> buildWiresharkFilterFromConfig (config_of [(''ip'', '' 1.2.3.4 , 5.6.7.8 '')]) =
        Inr ''(ip.addr == 1.2.3.4 or ip.addr == 5.6.7.8)''
   \<and> buildWiresharkFilterFromConfig (config_of [(''packetSizeMin'', s)]) =
        Inr (if s = [] then [] else ''frame.len >= '' @ s)
   \<and> buildWiresharkFilterFromConfig (config_of [(''packetSizeMax'', s)]) =
        Inr (if s = [] then [] else ''frame.len <= '' @ s)
   \<and> buildWiresharkFilterFromConfig (config_of [(''timeRange'', s)]) =
        Inr (sep_by '' and ''
          (at_or_after (before CHR ''/'' s)
           @ at_or_before (before CHR ''/'' (after CHR ''/'' s))))"
proof (intro conjI impI)
  show "buildWiresharkFilterFromConfig (config_of kvs) = Inr (compile_verbatim (map_of kvs))"
    by (rule build_verbatim)
next
  assume "v \<in> set (surviving s)"
  then have a: "v \<noteq> [] \<and> \<not> white (hd v) \<and> \<not> white (last v)
         \<and> v \<in> strip ` set (pieces CHR '','' s)"
    by (rule surviving_trimmed)
  from a show "v \<noteq> []" by simp
  from a show "\<not> white (hd v)" by simp
  from a show "\<not> white (last v)" by simp
  from a show "v \<in> strip ` set (pieces CHR '','' s)" by simp
next
  assume "(f, AnyOf p) \<in> set field_table \<and> f \<notin> fst ` set kvs \<and> surviving s = []"
  then show "buildWiresharkFilterFromConfig (config_of ((f, s) # kvs)) =
        buildWiresharkFilterFromConfig (config_of kvs)"
    using blank_field_absent by blast
next
  assume "(f, AnyOf p) \<in> set field_table \<and> surviving s = surviving s'"
  then show "buildWiresharkFilterFromConfig (config_of ((f, s) # kvs)) =
        buildWiresharkFilterFromConfig (config_of ((f, s') # kvs))"
    using same_values_same_expression by blast
qed (rule two_addresses single_bounds single_range)+

text \<open>
  C5 as stated fails on the three fields that are not comma-separated: a blank
  \<^verbatim>\<open>packetSizeMin\<close> is not treated as absent, \<^verbatim>\<open>packetSizeMax\<close> is not trimmed, and a
  \<^verbatim>\<open>timeRange\<close> with blank sides gives two clauses.
\<close>

theorem size_bounds_not_trimmed:
  "js_trim '' '' = []
   \<and> buildWiresharkFilterFromConfig (config_of [(''packetSizeMin'', '' '')]) = Inr ''frame.len >=  ''
   \<and> buildWiresharkFilterFromConfig (config_of []) = Inr []
   \<and> buildWiresharkFilterFromConfig (config_of [(''packetSizeMax'', '' 1500 '')])
       = Inr ''frame.len <=  1500 ''
   \<and> buildWiresharkFilterFromConfig (config_of [(''timeRange'', '' / '')])
       = Inr (''frame.time >= '' @ quoted '' '' @ '' and frame.time <= '' @ quoted '' '')"
  by (simp add: build_strings compile_eval quoted_def)

theorem field_value_handling_witness:
  "surviving '' TCP ,, udp , '' = [''TCP'', ''udp'']
   \<and> buildWiresharkFilterFromConfig (config_of [(''protocol'', '' , ''), (''packetSizeMin'', ''64'')])
       = Inr ''frame.len >= 64''
   \<and> buildWiresharkFilterFromConfig (config_of [(''protocol'', '' TCP ,, udp , '')])
       = Inr ''(tcp or udp)''
   \<and> buildWiresharkFilterFromConfig (config_of [(''timeRange'', ''10:00 /11:00/x'')])
       = Inr (''frame.time >= '' @ quoted ''10:00 '' @ '' and frame.time <= '' @ quoted ''11:00'')"
proof -
  have l: "(''protocol'', AnyOf (\<lambda>n. toLowerCase n)) \<in> set field_table"
    by (simp add: field_table_def)
  have a: "''protocol'' \<notin> fst ` set [(''packetSizeMin'', ''64'')] \<and> surviving '' , '' = []"
    by (simp add: spec_eval)
  have b: "surviving '' TCP ,, udp , '' = [''TCP'', ''udp'']"
       "surviving '' TCP ,, udp , '' = surviving ''TCP,udp''"
    by (simp_all add: spec_eval)
  have c: "compile_verbatim (map_of [(''packetSizeMin'', ''64'')]) = ''frame.len >= 64''"
    "compile_verbatim (map_of [(''protocol'', ''TCP,udp'')]) = ''(tcp or udp)''"
    by (simp_all add: spec_eval char_of_eq_iff)
  have d: "sep_by '' and ''
       (at_or_after (before CHR ''/'' ''10:00 /11:00/x'')
        @ at_or_before (before CHR ''/'' (after CHR ''/'' ''10:00 /11:00/x''))) =
      ''frame.time >= '' @ quoted ''10:00 '' @ '' and frame.time <= '' @ quoted ''11:00''"
    by (simp add: spec_eval)
  from field_value_handling [of "[(''packetSizeMin'', ''64'')]" "''TCP''" "'' , ''" "''protocol''"
      "\<lambda>n. toLowerCase n" "'' , ''"]
    field_value_handling [of "[(''protocol'', ''TCP,udp'')]" "''TCP''" "'' TCP ,, udp , ''"
      "''protocol''" "\<lambda>n. toLowerCase n" "''TCP,udp''"]
    field_value_handling [of "[]" "''TCP''" "'' TCP ,, udp , ''" "''protocol''"
      "\<lambda>n. toLowerCase n" "''TCP,udp''"]
    field_value_handling [of "[]" "''TCP''" "''10:00 /11:00/x''" "''protocol''"
      "\<lambda>n. toLowerCase n" "''10:00 /11:00/x''"]
    l a b c d show ?thesis
    by simp
qed

section \<open>Letter case of protocol and flag names\<close>

lemma of_char_lower:
  "(of_char (lower_char c) :: nat) = (if is_upper (of_char c) then of_char c + 32 else of_char c)"
  by (simp add: lower_char_def is_upper_def)

lemma is_space_lower [simp]: "is_space (lower_char c) = is_space c"
  by (auto simp: is_space_def of_char_lower is_upper_def)

lemma lower_char_comma [simp]: "(lower_char c = CHR '','') = (c = CHR '','')"
proof -
  have "(lower_char c = CHR '','') = ((of_char (lower_char c) :: nat) = of_char CHR '','')"
    by (simp only: of_char_eq_iff)
  also have "\<dots> = ((of_char c :: nat) = of_char CHR '','')"
    by (auto simp: of_char_lower is_upper_def)
  also have "\<dots> = (c = CHR '','')"
    by (simp only: of_char_eq_iff)
  finally show ?thesis .
qed

lemma split_on_lower:
  "split_on CHR '','' (toLowerCase s) = map toLowerCase (split_on CHR '','' s)"
  unfolding toLowerCase_def
  by (induction s) (auto split: list.splits)

lemma dropWhile_lower: "dropWhile is_space (map lower_char s) = map lower_char (dropWhile is_space s)"
  by (induction s) auto

lemma js_trim_lower: "js_trim (toLowerCase s) = toLowerCase (js_trim s)"
  by (simp add: js_trim_def toLowerCase_def dropWhile_lower rev_map)

lemma filter_nonempty_lower:
  "filter (\<lambda>v. v \<noteq> []) (map toLowerCase xs) = map toLowerCase (filter (\<lambda>v. v \<noteq> []) xs)"
  by (induction xs) (simp_all add: toLowerCase_def)

lemma field_values_lower: "field_values (toLowerCase s) = map toLowerCase (field_values s)"
proof -
  have "map js_trim (map toLowerCase xs) = map toLowerCase (map js_trim xs)" for xs
    by (simp add: js_trim_lower)
  then show ?thesis
    by (simp only: field_values_def split_on_lower filter_nonempty_lower)
qed

lemma multiFilter_cong:
  "get_field c f = get_field c' f \<Longrightarrow> multiFilter c f cb = multiFilter c' f cb"
  by (simp add: multiFilter_def)

lemma multiFilter_case:
  assumes "toLowerCase s = toLowerCase s'"
    and "\<And>v. cb v = g (toLowerCase v)"
    and "get_field c f = Some (JStr s)" "get_field c' f = Some (JStr s')"
  shows "multiFilter c f cb = multiFilter c' f cb"
proof -
  have e: "map toLowerCase (field_values s) = map toLowerCase (field_values s')"
    using assms(1) by (simp add: field_values_lower [symmetric])
  then have n: "(field_values s = []) = (field_values s' = [])"
    by (metis map_is_Nil_conv)
  have "map cb (field_values s) = map g (map toLowerCase (field_values s))"
    by (simp add: assms(2))
  also have "\<dots> = map cb (field_values s')"
    by (simp add: e assms(2))
  finally have m: "map cb (field_values s) = map cb (field_values s')" .
  have t: "(s = []) = (s' = [])"
    using assms(1) by (metis toLowerCase_Nil_iff)
  show ?thesis
    using n m t by (simp add: multiFilter_def assms(3,4))
qed


lemma push_multi_cong:
  "multiFilter c f cb = multiFilter c' f cb \<Longrightarrow> push_multi c f cb = push_multi c' f cb"
  by (simp add: push_multi_def fun_eq_iff)

lemma push_packetSizeMin_cong:
  "get_field c ''packetSizeMin'' = get_field c' ''packetSizeMin'' \<Longrightarrow>
   push_packetSizeMin c = push_packetSizeMin c'"
  by (simp add: push_packetSizeMin_def fun_eq_iff)

lemma push_packetSizeMax_cong:
  "get_field c ''packetSizeMax'' = get_field c' ''packetSizeMax'' \<Longrightarrow>
   push_packetSizeMax c = push_packetSizeMax c'"
  by (simp add: push_packetSizeMax_def fun_eq_iff)

lemma push_timeRange_cong:
  "get_field c ''timeRange'' = get_field c' ''timeRange'' \<Longrightarrow>
   push_timeRange c = push_timeRange c'"
  by (simp add: push_timeRange_def fun_eq_iff)

lemma char_eq_char_of: "(c = char_of n) = (take_bit 8 n = (of_char c :: nat))"
  using char_of_eq_iff [of n c] by (simp only: eq_commute [of c])

lemma multiFilter_other:
  "g \<noteq> f \<Longrightarrow>
   multiFilter (JObj (AList.update f v kvs)) g cb = multiFilter (JObj (AList.update f v' kvs)) g cb"
  by (rule multiFilter_cong) (simp add: AList.update_conv')

lemma get_field_other:
  "g \<noteq> f \<Longrightarrow>
   get_field (JObj (AList.update f v kvs)) g = get_field (JObj (AList.update f v' kvs)) g"
  by (simp add: AList.update_conv')

lemma protocol_case:
  assumes "toLowerCase s = toLowerCase s'"
  shows "build_steps (JObj (AList.update ''protocol'' (JStr s) kvs)) =
         build_steps (JObj (AList.update ''protocol'' (JStr s') kvs))"
proof -
  let ?c = "JObj (AList.update ''protocol'' (JStr s) kvs)"
  let ?c' = "JObj (AList.update ''protocol'' (JStr s') kvs)"
  have proto: "multiFilter ?c ''protocol'' cb_protocol = multiFilter ?c' ''protocol'' cb_protocol"
    by (rule multiFilter_case [OF assms, where g = "\<lambda>v. v"])
      (simp_all add: cb_protocol_def AList.update_conv')
  show ?thesis
    unfolding build_steps_def
    by (intro arg_cong2 [where f = Cons] refl push_multi_cong push_packetSizeMin_cong
        push_packetSizeMax_cong push_timeRange_cong proto multiFilter_other get_field_other)
      simp_all
qed

lemma tcpFlags_case:
  assumes "toLowerCase s = toLowerCase s'"
  shows "build_steps (JObj (AList.update ''tcpFlags'' (JStr s) kvs)) =
         build_steps (JObj (AList.update ''tcpFlags'' (JStr s') kvs))"
proof -
  let ?c = "JObj (AList.update ''tcpFlags'' (JStr s) kvs)"
  let ?c' = "JObj (AList.update ''tcpFlags'' (JStr s') kvs)"
  have flags: "multiFilter ?c ''tcpFlags'' cb_tcpFlags = multiFilter ?c' ''tcpFlags'' cb_tcpFlags"
    by (rule multiFilter_case [OF assms, where g = "\<lambda>v. ''tcp.flags.'' @ v @ '' == 1''"])
      (simp_all add: cb_tcpFlags_def AList.update_conv')
  show ?thesis
    unfolding build_steps_def
    by (intro arg_cong2 [where f = Cons] refl push_multi_cong push_packetSizeMin_cong
        push_packetSizeMax_cong push_timeRange_cong flags multiFilter_other get_field_other)
      simp_all
qed

text \<open>
  C10. Two configurations that differ only in the string of the \<^verbatim>\<open>protocol\<close> property, or
  only in the string of the \<^verbatim>\<open>tcpFlags\<close> property, and there only in letter case (the
  two strings have the same lower-case form), compile to the same result; the other
  properties are arbitrary values. Changing both properties is two such steps.
\<close>

theorem compile_case_invariant:
  assumes "toLowerCase s = toLowerCase s'" and "f = ''protocol'' \<or> f = ''tcpFlags''"
  shows "buildWiresharkFilterFromConfig (JObj (AList.update f (JStr s) kvs)) =
         buildWiresharkFilterFromConfig (JObj (AList.update f (JStr s') kvs))"
proof -
  have "build_steps (JObj (AList.update f (JStr s) kvs)) =
        build_steps (JObj (AList.update f (JStr s') kvs))"
    using assms protocol_case tcpFlags_case by blast
  then show ?thesis
    by (simp only: buildWiresharkFilterFromConfig_def)
qed

theorem compile_case_invariant_witness:
  "buildWiresharkFilterFromConfig
     (JObj [(''ip'', JStr ''1.2.3.4''), (''protocol'', JStr ''TCP, Udp''), (''tcpFlags'', JStr ''SYN,ack'')]) =
   buildWiresharkFilterFromConfig
     (JObj [(''ip'', JStr ''1.2.3.4''), (''protocol'', JStr ''tcp, UDP''), (''tcpFlags'', JStr ''syn,ACK'')])
   \<and> buildWiresharkFilterFromConfig
     (JObj [(''ip'', JStr ''1.2.3.4''), (''protocol'', JStr ''tcp, UDP''), (''tcpFlags'', JStr ''syn,ACK'')]) =
     Inr ''(ip.addr == 1.2.3.4) and (tcp or udp) and (tcp.flags.syn == 1 or tcp.flags.ack == 1)''"
proof -
  let ?kvs = "[(''ip'', JStr ''1.2.3.4''), (''protocol'', JStr ''TCP, Udp''), (''tcpFlags'', JStr ''SYN,ack'')]"
  let ?kvs' = "[(''ip'', JStr ''1.2.3.4''), (''protocol'', JStr ''tcp, UDP''), (''tcpFlags'', JStr ''SYN,ack'')]"
  have l: "toLowerCase ''TCP, Udp'' = toLowerCase ''tcp, UDP''"
    "toLowerCase ''SYN,ack'' = toLowerCase ''syn,ACK''"
    by (simp_all add: toLowerCase_def lower_char_def is_upper_def char_of_eq_iff char_eq_char_of)
  have v: "buildWiresharkFilterFromConfig
     (config_of [(''ip'', ''1.2.3.4''), (''protocol'', ''tcp, UDP''), (''tcpFlags'', ''syn,ACK'')]) =
     Inr ''(ip.addr == 1.2.3.4) and (tcp or udp) and (tcp.flags.syn == 1 or tcp.flags.ack == 1)''"
    by (simp add: build_strings compile_eval char_of_eq_iff)
  from compile_case_invariant [OF l(1), of "''protocol''" ?kvs]
    compile_case_invariant [OF l(2), of "''tcpFlags''" ?kvs'] v
  show ?thesis
    by (simp add: config_of_def)
qed

section \<open>What the pipeline steps leave in the store\<close>

lemma map_of_writeFile: "map_of (writeFile st f c) g = (if g = f then Some c else map_of st g)"
  by (simp add: writeFile_def AList.update_conv')

lemma exec_frame: "f \<noteq> target cmd \<Longrightarrow> map_of (snd (exec e cmd st)) f = map_of st f"
proof (cases cmd)
  case (Cp inp out)
  assume "f \<noteq> target cmd"
  with Cp show ?thesis
    by (cases "map_of st inp") (simp_all add: map_of_writeFile)
next
  case (Mergecap out ins)
  assume "f \<noteq> target cmd"
  with Mergecap show ?thesis
    by (cases "tool e (Mergecap out ins) st"; cases "snd (tool e (Mergecap out ins) st)")
      (simp_all add: map_of_writeFile)
next
  case (TsharkJson inp out)
  assume "f \<noteq> target cmd"
  with TsharkJson show ?thesis
    by (cases "tool e (TsharkJson inp out) st"; cases "snd (tool e (TsharkJson inp out) st)")
      (simp_all add: map_of_writeFile)
next
  case (TsharkFilter inp expr out)
  assume "f \<noteq> target cmd"
  with TsharkFilter show ?thesis
    by (cases "tool e (TsharkFilter inp expr out) st";
        cases "snd (tool e (TsharkFilter inp expr out) st)")
      (simp_all add: map_of_writeFile)
qed

text \<open>The command \<^verbatim>\<open>filterPcapAndJson\<close> runs first.\<close>

lemma filter_store:
  fixes e m fs st
  defines "cmd \<equiv> (if fs \<noteq> [] then TsharkFilter m fs filteredPcapFile else Cp m filteredPcapFile)"
  shows "snd (filterPcapAndJson e m fs st) =
           (case fst (exec e cmd st) of
              Some err \<Rightarrow> snd (exec e cmd st)
            | None \<Rightarrow> snd (exec e (TsharkJson filteredPcapFile filteredJsonFile)
                              (snd (exec e cmd st))))"
proof -
  obtain e1 st1 where x: "exec e cmd st = (e1, st1)"
    by (cases "exec e cmd st")
  obtain e2 st2 where y: "exec e (TsharkJson filteredPcapFile filteredJsonFile) st1 = (e2, st2)"
    by (cases "exec e (TsharkJson filteredPcapFile filteredJsonFile) st1")
  show ?thesis
    unfolding filterPcapAndJson_def pcapToJson_def Let_def cmd_def [symmetric] x
    by (cases e1; cases e2) (simp_all add: y split: option.split sum.split del: exec.simps)
qed

lemma filter_frame:
  assumes "f \<noteq> filteredPcapFile" "f \<noteq> filteredJsonFile"
  shows "map_of (snd (filterPcapAndJson e m fs st)) f = map_of st f"
proof -
  let ?cmd = "if fs \<noteq> [] then TsharkFilter m fs filteredPcapFile else Cp m filteredPcapFile"
  have t: "f \<noteq> target ?cmd" "f \<noteq> target (TsharkJson filteredPcapFile filteredJsonFile)"
    using assms by simp_all
  show ?thesis
    unfolding filter_store
    by (cases "fst (exec e ?cmd st)") (simp_all only: option.case exec_frame [OF t(1)] exec_frame [OF t(2)])
qed

lemma filter_ko:
  assumes "fst (filterPcapAndJson e m fs st) = (ko, d, msg)"
  shows "d = None \<and> msg \<noteq> None"
proof -
  let ?cmd = "if fs \<noteq> [] then TsharkFilter m fs filteredPcapFile else Cp m filteredPcapFile"
  obtain e1 st1 where x: "exec e ?cmd st = (e1, st1)"
    by (cases "exec e ?cmd st")
  obtain e2 st2 where y: "exec e (TsharkJson filteredPcapFile filteredJsonFile) st1 = (e2, st2)"
    by (cases "exec e (TsharkJson filteredPcapFile filteredJsonFile) st1")
  from assms show ?thesis
    unfolding filterPcapAndJson_def pcapToJson_def Let_def x
    by (cases e1; cases e2)
      (auto simp add: y filtering_failed_def split: option.splits sum.splits simp del: exec.simps)
qed

lemma filter_copy:
  assumes "map_of st m = Some c"
  shows "map_of (snd (filterPcapAndJson e m [] st)) filteredPcapFile = Some c"
proof -
  have j: "filteredPcapFile \<noteq> target (TsharkJson filteredPcapFile filteredJsonFile)"
    by (simp add: filteredPcapFile_def filteredJsonFile_def)
  have x: "exec e (Cp m filteredPcapFile) st = (None, writeFile st filteredPcapFile c)"
    using assms by simp
  have "snd (filterPcapAndJson e m [] st) =
          snd (exec e (TsharkJson filteredPcapFile filteredJsonFile) (writeFile st filteredPcapFile c))"
    unfolding filter_store by (simp add: x del: exec.simps)
  then show ?thesis
    by (simp only: exec_frame [OF j] map_of_writeFile if_True refl)
qed

section \<open>Submitting an empty configuration\<close>

lemma push_multi_falsy:
  "\<not> truthy_opt (get_field c f) \<Longrightarrow> push_multi c f cb filters = Inr filters"
  by (cases "get_field c f") (simp_all add: push_multi_def multiFilter_def)

lemma push_packetSizeMin_falsy:
  "\<not> truthy_opt (get_field c ''packetSizeMin'') \<Longrightarrow> push_packetSizeMin c filters = Inr filters"
  by (cases "get_field c ''packetSizeMin''") (simp_all add: push_packetSizeMin_def)

lemma push_packetSizeMax_falsy:
  "\<not> truthy_opt (get_field c ''packetSizeMax'') \<Longrightarrow> push_packetSizeMax c filters = Inr filters"
  by (cases "get_field c ''packetSizeMax''") (simp_all add: push_packetSizeMax_def)

lemma push_timeRange_falsy:
  "\<not> truthy_opt (get_field c ''timeRange'') \<Longrightarrow> push_timeRange c filters = Inr filters"
  by (cases "get_field c ''timeRange''") (simp_all add: push_timeRange_def)

lemma build_unpopulated:
  assumes "\<forall>f\<in>set field_order. \<not> truthy_opt (get_field c f)"
  shows "buildWiresharkFilterFromConfig c = Inr []"
proof -
  have f: "\<not> truthy_opt (get_field c f)" if "f \<in> set field_order" for f
    using assms that by blast
  have m: "push_multi c f cb filters = Inr filters" if "f \<in> set field_order" for f cb filters
    using f [OF that] by (rule push_multi_falsy)
  have "run_steps (build_steps c) [] = Inr []"
    unfolding build_steps_def
    by (simp add: m push_packetSizeMin_falsy push_packetSizeMax_falsy push_timeRange_falsy f
        field_order_def)
  then show ?thesis
    by (simp add: buildWiresharkFilterFromConfig_def)
qed

lemma post_config_store:
  assumes "existsSync st mergedPcapFile" "truthy c" "buildWiresharkFilterFromConfig c = Inr fs"
  shows "fst (app_post_config e st c) =
           snd (filterPcapAndJson e mergedPcapFile fs (saveConfig st c))"
proof -
  have "existsSync (saveConfig st c) mergedPcapFile"
    using assms(1)
    by (simp add: existsSync_def saveConfig_def map_of_writeFile mergedPcapFile_def
        configFilePath_def)
  then show ?thesis
    using assms(2,3)
    by (cases "filterPcapAndJson e mergedPcapFile fs (saveConfig st c)")
      (simp add: app_post_config_def)
qed

text \<open>
  C3. When a merged capture exists and the submitted object has no truthy value under any
  recognised field name, the compiler returns the empty expression and, after
  \<^verbatim>\<open>POST /config\<close>, \<^verbatim>\<open>filtered.pcap\<close> holds the content of \<^verbatim>\<open>merged.pcap\<close>, which is
  itself unchanged; \<^verbatim>\<open>config.json\<close> holds the submitted object.
\<close>

theorem empty_config_copies_merged:
  assumes "existsSync st mergedPcapFile"
    and "\<forall>f\<in>set field_order. \<not> truthy_opt (get_field (JObj kvs) f)"
  shows "buildWiresharkFilterFromConfig (JObj kvs) = Inr []
       \<and> map_of (fst (app_post_config e st (JObj kvs))) filteredPcapFile = map_of st mergedPcapFile
       \<and> map_of (fst (app_post_config e st (JObj kvs))) mergedPcapFile = map_of st mergedPcapFile
       \<and> map_of (fst (app_post_config e st (JObj kvs))) configFilePath = Some (Json (JObj kvs))"
proof -
  let ?st1 = "saveConfig st (JObj kvs)"
  have b: "buildWiresharkFilterFromConfig (JObj kvs) = Inr []"
    using assms(2) by (rule build_unpopulated)
  have s: "fst (app_post_config e st (JObj kvs)) = snd (filterPcapAndJson e mergedPcapFile [] ?st1)"
    using assms(1) b by (intro post_config_store) simp_all
  from assms(1) obtain c where c: "map_of st mergedPcapFile = Some c"
    by (auto simp: existsSync_def)
  then have c1: "map_of ?st1 mergedPcapFile = Some c"
    by (simp add: saveConfig_def map_of_writeFile mergedPcapFile_def configFilePath_def)
  have k: "map_of ?st1 configFilePath = Some (Json (JObj kvs))"
    by (simp add: saveConfig_def map_of_writeFile)
  have n: "mergedPcapFile \<noteq> filteredPcapFile" "mergedPcapFile \<noteq> filteredJsonFile"
    "configFilePath \<noteq> filteredPcapFile" "configFilePath \<noteq> filteredJsonFile"
    by (simp_all add: mergedPcapFile_def filteredPcapFile_def filteredJsonFile_def
        configFilePath_def)
  have "map_of (snd (filterPcapAndJson e mergedPcapFile [] ?st1)) filteredPcapFile = Some c"
    using c1 by (rule filter_copy)
  moreover have "map_of (snd (filterPcapAndJson e mergedPcapFile [] ?st1)) mergedPcapFile = Some c"
    using c1 by (simp only: filter_frame [OF n(1,2)])
  moreover have "map_of (snd (filterPcapAndJson e mergedPcapFile [] ?st1)) configFilePath =
      Some (Json (JObj kvs))"
    using k by (simp only: filter_frame [OF n(3,4)])
  ultimately show ?thesis
    using b c by (simp only: s simp_thms)
qed

theorem empty_config_copies_merged_witness:
  "map_of (fst (app_post_config (env_with never)
       [(''merged.pcap'', Raw ''m''), (''config.json'', Json (JObj [(''ip'', JStr ''1.2.3.4'')])),
        (''filtered.pcap'', Raw ''f'')]
       (JObj []))) filteredPcapFile = Some (Raw ''m'')
   \<and> map_of (fst (app_post_config (env_with never)
       [(''merged.pcap'', Raw ''m''), (''config.json'', Json (JObj [(''ip'', JStr ''1.2.3.4'')])),
        (''filtered.pcap'', Raw ''f'')]
       (JObj []))) configFilePath = Some (Json (JObj []))
   \<and> buildWiresharkFilterFromConfig (JObj []) = Inr []"
proof -
  let ?st = "[(''merged.pcap'', Raw ''m''), (''config.json'', Json (JObj [(''ip'', JStr ''1.2.3.4'')])),
        (''filtered.pcap'', Raw ''f'')]"
  have a: "existsSync ?st mergedPcapFile"
    by (simp add: existsSync_def mergedPcapFile_def)
  have b: "\<forall>f\<in>set field_order. \<not> truthy_opt (get_field (JObj []) f)"
    by simp
  have c: "map_of ?st mergedPcapFile = Some (Raw ''m'')"
    by (simp add: mergedPcapFile_def)
  from empty_config_copies_merged [OF a b, of "env_with never"] c show ?thesis
    by simp
qed

section \<open>Stopping with nothing to merge\<close>

lemma pcapFiles_alt:
  "pcapFiles st = filter (\<lambda>file. endsWith file ''.pcap'' \<and> file \<noteq> mergedPcapFile) (readdir st)"
proof -
  have "filter P (removeAll k xs) = filter (\<lambda>x. P x \<and> x \<noteq> k) xs" for P and k :: string and xs
    by (induction xs) auto
  then show ?thesis
    by (simp add: pcapFiles_def readdir_def unlink_def AList.delete_keys)
qed

lemma unlink_absent: "\<not> existsSync (unlink st f) f"
  by (simp add: existsSync_def unlink_def AList.delete_conv')

text \<open>
  C7, amended. With at least one agent registered and no file in the store whose name ends
  in \<^verbatim>\<open>.pcap\<close> other than \<^verbatim>\<open>merged.pcap\<close>, \<^verbatim>\<open>GET /stop\<close> answers 500 with
  \<^verbatim>\<open>No .pcap files found to merge.\<close>, and \<^verbatim>\<open>merged.pcap\<close> does not exist afterwards.
\<close>

theorem stop_without_captures:
  assumes "containerNames \<noteq> []"
    and "filter (\<lambda>file. endsWith file ''.pcap'' \<and> file \<noteq> mergedPcapFile) (readdir st) = []"
  shows "app_get_stop e containerNames st =
           (unlink st mergedPcapFile, Send 500 ''No .pcap files found to merge.'')
       \<and> \<not> existsSync (fst (app_get_stop e containerNames st)) mergedPcapFile"
proof -
  from assms(2) have "pcapFiles st = []"
    by (simp only: pcapFiles_alt)
  then have "mergePcaps e st = (Some (Exn ''No .pcap files found to merge.''), unlink st mergedPcapFile)"
    by (simp add: mergePcaps_def)
  with assms(1) have "app_get_stop e containerNames st =
           (unlink st mergedPcapFile, Send 500 ''No .pcap files found to merge.'')"
    by (simp add: app_get_stop_def stop_try_def message_or_def)
  then show ?thesis
    by (simp add: unlink_absent)
qed

text \<open>
  C7 as stated fails when no agent is registered: the request is refused with status 400
  before the store is touched, and an old \<^verbatim>\<open>merged.pcap\<close> stays.
\<close>

theorem stop_without_agents:
  "filter isRawCapture (readdir [(''merged.pcap'', Raw ''old'')]) = []
   \<and> app_get_stop (env_with never) [] [(''merged.pcap'', Raw ''old'')] =
       ([(''merged.pcap'', Raw ''old'')], Send 400 ''No container names available to stop.'')
   \<and> existsSync [(''merged.pcap'', Raw ''old'')] mergedPcapFile"
  by (simp add: readdir_def isRawCapture_def app_get_stop_def existsSync_def mergedPcapFile_def)

theorem stop_without_captures_witness:
  "app_get_stop (env_with never) [''scan1'']
     [(''merged.pcap'', Raw ''old''), (''config.json'', Json (JObj [])), (''control.log'', Raw ''log'')] =
     ([(''config.json'', Json (JObj [])), (''control.log'', Raw ''log'')],
      Send 500 ''No .pcap files found to merge.'')"
proof -
  let ?st = "[(''merged.pcap'', Raw ''old''), (''config.json'', Json (JObj [])), (''control.log'', Raw ''log'')]"
  have a: "[''scan1''] \<noteq> []" by simp
  have b: "filter (\<lambda>file. endsWith file ''.pcap'' \<and> file \<noteq> mergedPcapFile) (readdir ?st) = []"
    by (simp add: readdir_def endsWith_def mergedPcapFile_def)
  from stop_without_captures [OF a b, of "env_with never"] show ?thesis
    by (simp add: unlink_def mergedPcapFile_def)
qed

section \<open>Failures during stop\<close>

lemma stop_merge_fails:
  assumes "containerNames \<noteq> []" "mergePcaps e st = (Some err, st1)"
  shows "app_get_stop e containerNames st =
           (st1, Send 500 (if message err \<noteq> [] then message err
              else ''Failed to process pcap files.''))"
  using assms by (simp add: app_get_stop_def stop_try_def message_or_def)

lemma stop_decode_fails:
  assumes "containerNames \<noteq> []" "mergePcaps e st = (None, st1)"
    "pcapToJson e mergedPcapFile jsonOutputFile st1 = (Some err, st2)"
  shows "app_get_stop e containerNames st =
           (st2, Send 500 (if message err \<noteq> [] then message err
              else ''Failed to process pcap files.''))"
  using assms by (simp add: app_get_stop_def stop_try_def message_or_def)

text \<open>The four ways in which \<^verbatim>\<open>filterPcapAndJson\<close> ends with \<^verbatim>\<open>ko\<close>.\<close>

lemma filter_tool_fails:
  assumes "exec e (if fs \<noteq> [] then TsharkFilter m fs filteredPcapFile
                   else Cp m filteredPcapFile) st = (Some err, st1)"
  shows "filterPcapAndJson e m fs st =
           ((ko, None, Some (''Filtering failed: ''
               @ (if message err \<noteq> [] then message err else ''Error''))), st1)"
  unfolding filterPcapAndJson_def Let_def
  by (simp add: assms filtering_failed_def err_text_def message_or_def del: exec.simps)

lemma filter_decode_fails:
  assumes "exec e (if fs \<noteq> [] then TsharkFilter m fs filteredPcapFile
                   else Cp m filteredPcapFile) st = (None, st1)"
    and "exec e (TsharkJson filteredPcapFile filteredJsonFile) st1 = (Some err, st2)"
  shows "filterPcapAndJson e m fs st =
           ((ko, None, Some (''Filtering failed: ''
               @ (if message err \<noteq> [] then message err else ''Error''))), st2)"
  unfolding filterPcapAndJson_def pcapToJson_def Let_def
  by (simp add: assms filtering_failed_def err_text_def message_or_def del: exec.simps)

lemma filter_json_missing:
  assumes "exec e (if fs \<noteq> [] then TsharkFilter m fs filteredPcapFile
                   else Cp m filteredPcapFile) st = (None, st1)"
    and "exec e (TsharkJson filteredPcapFile filteredJsonFile) st1 = (None, st2)"
    and "map_of st2 filteredJsonFile = None"
  shows "filterPcapAndJson e m fs st =
           ((ko, None, Some ''Filtered JSON file not found after filtering.''), st2)"
  unfolding filterPcapAndJson_def pcapToJson_def Let_def
  by (simp add: assms del: exec.simps)

lemma filter_json_unreadable:
  assumes "exec e (if fs \<noteq> [] then TsharkFilter m fs filteredPcapFile
                   else Cp m filteredPcapFile) st = (None, st1)"
    and "exec e (TsharkJson filteredPcapFile filteredJsonFile) st1 = (None, st2)"
    and "map_of st2 filteredJsonFile = Some c" "JSON_parse c = Inl err"
  shows "filterPcapAndJson e m fs st =
           ((ko, None, Some (''Filtering failed: ''
               @ (if message err \<noteq> [] then message err else ''Error''))), st2)"
  unfolding filterPcapAndJson_def pcapToJson_def Let_def
  by (simp add: assms filtering_failed_def err_text_def message_or_def del: exec.simps)

text \<open>The answer of \<^verbatim>\<open>GET /stop\<close> when the filter step ends with \<^verbatim>\<open>ko\<close>.\<close>

lemma stop_filter_ko:
  assumes "containerNames \<noteq> []" "mergePcaps e st = (None, st1)"
    "pcapToJson e mergedPcapFile jsonOutputFile st1 = (None, st2)"
    "getLatestConfig st2 = Inr (Some config)" "truthy config"
    "buildWiresharkFilterFromConfig config = Inr filterString"
    "readFile st2 jsonOutputFile = Inr jsonData" "JSON_parse jsonData = Inr decoded"
    "filterPcapAndJson e mergedPcapFile filterString st2 = ((ko, None, Some msg), st3)"
  shows "app_get_stop e containerNames st =
           (st3, StopJson (map (\<lambda>c. (c, if agent_stop e c then success else failed))
                             containerNames)
                   decoded (Some ko) (Some msg))"
proof -
  have f: "stop_filter e (Some config) st2 = (st3, Inr (Some ko, None, Some msg))"
    using assms(5,6,9) by (simp add: stop_filter_def)
  have p: "pcapData_of None jsonData = Inr decoded"
    using assms(8) by (simp add: pcapData_of_def)
  have "stop_try e (broadcast (agent_stop e) containerNames) st =
          (st3, Inr (StopJson (broadcast (agent_stop e) containerNames) decoded (Some ko)
             (Some msg)))"
    by (simp add: stop_try_def assms(2,3,4,7) f p)
  with assms(1) show ?thesis
    by (simp add: app_get_stop_def broadcast_def)
qed

text \<open>
  C1, amended. With at least one agent registered: a failing merge, and a failing decode
  of the merged capture, end \<^verbatim>\<open>GET /stop\<close> with status 500 and the error's message, without
  the agents' results. When merge and decode succeed, the persisted configuration compiles
  and the decoded record reads back, then each failure of the filter step (the filter command
  fails; the decode of the filtered capture fails; it leaves no \<^verbatim>\<open>filtered.json\<close>; it
  leaves one that does not parse) gives the answer with the result of every agent, the
  decoded record of the merged capture, \<^verbatim>\<open>filterStatus\<close> \<^verbatim>\<open>ko\<close> and the error message.
\<close>

theorem stop_failure_split:
  assumes "containerNames \<noteq> []"
  shows
    "(mergePcaps e st = (Some err, st1) \<longrightarrow>
        app_get_stop e containerNames st =
          (st1, Send 500 (if message err \<noteq> [] then message err
              else ''Failed to process pcap files.'')))
     \<and> (mergePcaps e st = (None, st1)
          \<and> pcapToJson e mergedPcapFile jsonOutputFile st1 = (Some err, st2) \<longrightarrow>
        app_get_stop e containerNames st =
          (st2, Send 500 (if message err \<noteq> [] then message err
              else ''Failed to process pcap files.'')))
     \<and> (mergePcaps e st = (None, st1)
          \<and> pcapToJson e mergedPcapFile jsonOutputFile st1 = (None, st2)
          \<and> getLatestConfig st2 = Inr (Some config) \<and> truthy config
          \<and> buildWiresharkFilterFromConfig config = Inr filterString
          \<and> readFile st2 jsonOutputFile = Inr jsonData \<and> JSON_parse jsonData = Inr decoded \<longrightarrow>
        (exec e (if filterString \<noteq> []
                 then TsharkFilter mergedPcapFile filterString filteredPcapFile
                 else Cp mergedPcapFile filteredPcapFile) st2 = (Some ferr, st3) \<longrightarrow>
           app_get_stop e containerNames st =
             (st3, StopJson (map (\<lambda>c. (c, if agent_stop e c then success else failed))
                               containerNames)
                     decoded (Some ko)
                     (Some (''Filtering failed: ''
                        @ (if message ferr \<noteq> [] then message ferr else ''Error'')))))
        \<and> (exec e (if filterString \<noteq> []
                   then TsharkFilter mergedPcapFile filterString filteredPcapFile
                   else Cp mergedPcapFile filteredPcapFile) st2 = (None, st3)
            \<and> exec e (TsharkJson filteredPcapFile filteredJsonFile) st3 = (Some ferr, st4) \<longrightarrow>
           app_get_stop e containerNames st =
             (st4, StopJson (map (\<lambda>c. (c, if agent_stop e c then success else failed))
                               containerNames)
                     decoded (Some ko)
                     (Some (''Filtering failed: ''
                        @ (if message ferr \<noteq> [] then message ferr else ''Error'')))))
        \<and> (exec e (if filterString \<noteq> []
                   then TsharkFilter mergedPcapFile filterString filteredPcapFile
                   else Cp mergedPcapFile filteredPcapFile) st2 = (None, st3)
            \<and> exec e (TsharkJson filteredPcapFile filteredJsonFile) st3 = (None, st4)
            \<and> map_of st4 filteredJsonFile = None \<longrightarrow>
           app_get_stop e containerNames st =
             (st4, StopJson (map (\<lambda>c. (c, if agent_stop e c then success else failed))
                               containerNames)
                     decoded (Some ko)
                     (Some ''Filtered JSON file not found after filtering.'')))
        \<and> (exec e (if filterString \<noteq> []
                   then TsharkFilter mergedPcapFile filterString filteredPcapFile
                   else Cp mergedPcapFile filteredPcapFile) st2 = (None, st3)
            \<and> exec e (TsharkJson filteredPcapFile filteredJsonFile) st3 = (None, st4)
            \<and> map_of st4 filteredJsonFile = Some c \<and> JSON_parse c = Inl ferr \<longrightarrow>
           app_get_stop e containerNames st =
             (st4, StopJson (map (\<lambda>c. (c, if agent_stop e c then success else failed))
                               containerNames)
                     decoded (Some ko)
                     (Some (''Filtering failed: ''
                        @ (if message ferr \<noteq> [] then message ferr else ''Error''))))))"
proof (intro conjI impI)
  assume "mergePcaps e st = (Some err, st1)"
  with assms show "app_get_stop e containerNames st =
      (st1, Send 500 (if message err \<noteq> [] then message err
          else ''Failed to process pcap files.''))"
    by (rule stop_merge_fails)
next
  assume "mergePcaps e st = (None, st1)
          \<and> pcapToJson e mergedPcapFile jsonOutputFile st1 = (Some err, st2)"
  with assms show "app_get_stop e containerNames st =
      (st2, Send 500 (if message err \<noteq> [] then message err
          else ''Failed to process pcap files.''))"
    using stop_decode_fails by blast
next
  assume h: "mergePcaps e st = (None, st1)
          \<and> pcapToJson e mergedPcapFile jsonOutputFile st1 = (None, st2)
          \<and> getLatestConfig st2 = Inr (Some config) \<and> truthy config
          \<and> buildWiresharkFilterFromConfig config = Inr filterString
          \<and> readFile st2 jsonOutputFile = Inr jsonData \<and> JSON_parse jsonData = Inr decoded"
  have k: "app_get_stop e containerNames st =
           (st', StopJson (map (\<lambda>c. (c, if agent_stop e c then success else failed))
                             containerNames)
                   decoded (Some ko) (Some msg))"
    if "filterPcapAndJson e mergedPcapFile filterString st2 = ((ko, None, Some msg), st')"
    for st' msg
    using assms h that by (elim conjE) (rule stop_filter_ko; assumption)
  {
    assume "exec e (if filterString \<noteq> []
                 then TsharkFilter mergedPcapFile filterString filteredPcapFile
                 else Cp mergedPcapFile filteredPcapFile) st2 = (Some ferr, st3)"
    then show "app_get_stop e containerNames st =
             (st3, StopJson (map (\<lambda>c. (c, if agent_stop e c then success else failed))
                               containerNames)
                     decoded (Some ko)
                     (Some (''Filtering failed: ''
                        @ (if message ferr \<noteq> [] then message ferr else ''Error''))))"
      by (intro k filter_tool_fails)
  }
  {
    assume "exec e (if filterString \<noteq> []
                   then TsharkFilter mergedPcapFile filterString filteredPcapFile
                   else Cp mergedPcapFile filteredPcapFile) st2 = (None, st3)
            \<and> exec e (TsharkJson filteredPcapFile filteredJsonFile) st3 = (Some ferr, st4)"
    then show "app_get_stop e containerNames st =
             (st4, StopJson (map (\<lambda>c. (c, if agent_stop e c then success else failed))
                               containerNames)
                     decoded (Some ko)
                     (Some (''Filtering failed: ''
                        @ (if message ferr \<noteq> [] then message ferr else ''Error''))))"
      by (elim conjE) (intro k filter_decode_fails; assumption)
  }
  {
    assume "exec e (if filterString \<noteq> []
                   then TsharkFilter mergedPcapFile filterString filteredPcapFile
                   else Cp mergedPcapFile filteredPcapFile) st2 = (None, st3)
            \<and> exec e (TsharkJson filteredPcapFile filteredJsonFile) st3 = (None, st4)
            \<and> map_of st4 filteredJsonFile = None"
    then show "app_get_stop e containerNames st =
             (st4, StopJson (map (\<lambda>c. (c, if agent_stop e c then success else failed))
                               containerNames)
                     decoded (Some ko)
                     (Some ''Filtered JSON file not found after filtering.''))"
      by (elim conjE) (intro k filter_json_missing; assumption)
  }
  {
    assume "exec e (if filterString \<noteq> []
                   then TsharkFilter mergedPcapFile filterString filteredPcapFile
                   else Cp mergedPcapFile filteredPcapFile) st2 = (None, st3)
            \<and> exec e (TsharkJson filteredPcapFile filteredJsonFile) st3 = (None, st4)
            \<and> map_of st4 filteredJsonFile = Some c \<and> JSON_parse c = Inl ferr"
    then show "app_get_stop e containerNames st =
             (st4, StopJson (map (\<lambda>c. (c, if agent_stop e c then success else failed))
                               containerNames)
                     decoded (Some ko)
                     (Some (''Filtering failed: ''
                        @ (if message ferr \<noteq> [] then message ferr else ''Error''))))"
      by (elim conjE) (intro k filter_json_unreadable; assumption)
  }
qed

text \<open>The equations that evaluate the store operations on a given store.\<close>

lemmas store_eval =
  pcapFiles_def readdir_def unlink_def writeFile_def endsWith_def existsSync_def
  mergedPcapFile_def jsonOutputFile_def filteredPcapFile_def filteredJsonFile_def
  configFilePath_def env_with_def tool_with_def never_def env_filtered_json_def

text \<open>
  C1 as stated fails when the decode of the merged capture fails after a successful merge:
  the answer is status 500, with no results of the agents.
\<close>

theorem stop_decode_failure_aborts:
  "mergePcaps (env_with is_decode_merged) [(''dumpfile_scan1.pcap'', Raw ''a'')] =
     (None, [(''dumpfile_scan1.pcap'', Raw ''a''), (''merged.pcap'', Raw ''pcap'')])
   \<and> app_get_stop (env_with is_decode_merged) [''scan1''] [(''dumpfile_scan1.pcap'', Raw ''a'')] =
     ([(''dumpfile_scan1.pcap'', Raw ''a''), (''merged.pcap'', Raw ''pcap'')],
      Send 500 ''Command failed'')"
proof -
  let ?e = "env_with is_decode_merged"
  let ?st1 = "[(''dumpfile_scan1.pcap'', Raw ''a''), (''merged.pcap'', Raw ''pcap'')]"
  have m: "mergePcaps ?e [(''dumpfile_scan1.pcap'', Raw ''a'')] = (None, ?st1)"
    by (simp add: mergePcaps_def store_eval)
  have d: "pcapToJson ?e mergedPcapFile jsonOutputFile ?st1 = (Some (Exn ''Command failed''), ?st1)"
    by (simp add: pcapToJson_def store_eval)
  have "app_get_stop ?e [''scan1''] [(''dumpfile_scan1.pcap'', Raw ''a'')] =
      (?st1, Send 500 (if message (Exn ''Command failed'') \<noteq> [] then message (Exn ''Command failed'')
          else ''Failed to process pcap files.''))"
    by (rule stop_decode_fails [OF _ m d]) simp
  with m show ?thesis
    by simp
qed

theorem stop_failure_split_witness:
  "app_get_stop (env_with is_mergecap) [''scan1''] [(''dumpfile_scan1.pcap'', Raw ''a'')] =
     ([(''dumpfile_scan1.pcap'', Raw ''a'')], Send 500 ''Command failed'')
   \<and> app_get_stop (env_with is_decode_merged) [''scan1'', ''scan2'']
       [(''dumpfile_scan1.pcap'', Raw ''a''), (''dumpfile_scan2.pcap'', Raw ''b'')] =
     ([(''dumpfile_scan1.pcap'', Raw ''a''), (''dumpfile_scan2.pcap'', Raw ''b''),
       (''merged.pcap'', Raw ''pcap'')],
      Send 500 ''Command failed'')
   \<and> app_get_stop (env_with is_tshark_filter) [''scan1'']
       [(''dumpfile_scan1.pcap'', Raw ''a''), (''config.json'', Json (JObj [(''ip'', JStr ''1.2.3.4'')]))] =
     ([(''dumpfile_scan1.pcap'', Raw ''a''), (''config.json'', Json (JObj [(''ip'', JStr ''1.2.3.4'')])),
       (''merged.pcap'', Raw ''pcap''),
       (''output.json'', Json (JArr [JObj [(''_index'', JStr ''packets'')]]))],
      StopJson [(''scan1'', success)] (JArr [JObj [(''_index'', JStr ''packets'')]]) (Some ko)
        (Some ''Filtering failed: Command failed''))
   \<and> app_get_stop (env_with is_decode_filtered) [''scan1'']
       [(''dumpfile_scan1.pcap'', Raw ''a''), (''config.json'', Json (JObj [(''ip'', JStr ''1.2.3.4'')]))] =
     ([(''dumpfile_scan1.pcap'', Raw ''a''), (''config.json'', Json (JObj [(''ip'', JStr ''1.2.3.4'')])),
       (''merged.pcap'', Raw ''pcap''),
       (''output.json'', Json (JArr [JObj [(''_index'', JStr ''packets'')]])),
       (''filtered.pcap'', Raw ''pcap'')],
      StopJson [(''scan1'', success)] (JArr [JObj [(''_index'', JStr ''packets'')]]) (Some ko)
        (Some ''Filtering failed: Command failed''))
   \<and> app_get_stop (env_filtered_json None) [''scan1'', ''scan2'']
       [(''dumpfile_scan1.pcap'', Raw ''a''), (''config.json'', Json (JObj []))] =
     ([(''dumpfile_scan1.pcap'', Raw ''a''), (''config.json'', Json (JObj [])),
       (''merged.pcap'', Raw ''pcap''),
       (''output.json'', Json (JArr [JObj [(''_index'', JStr ''packets'')]])),
       (''filtered.pcap'', Raw ''pcap'')],
      StopJson [(''scan1'', success), (''scan2'', failed)]
        (JArr [JObj [(''_index'', JStr ''packets'')]]) (Some ko)
        (Some ''Filtered JSON file not found after filtering.''))
   \<and> app_get_stop (env_filtered_json (Some (Raw ''x''))) [''scan1'', ''scan2'']
       [(''dumpfile_scan1.pcap'', Raw ''a''), (''config.json'', Json (JObj []))] =
     ([(''dumpfile_scan1.pcap'', Raw ''a''), (''config.json'', Json (JObj [])),
       (''merged.pcap'', Raw ''pcap''),
       (''output.json'', Json (JArr [JObj [(''_index'', JStr ''packets'')]])),
       (''filtered.pcap'', Raw ''pcap''), (''filtered.json'', Raw ''x'')],
      StopJson [(''scan1'', success), (''scan2'', failed)]
        (JArr [JObj [(''_index'', JStr ''packets'')]]) (Some ko)
        (Some ''Filtering failed: Unexpected token in JSON''))"
proof -
  let ?rec = "JArr [JObj [(''_index'', JStr ''packets'')]]"
  let ?a = "[(''dumpfile_scan1.pcap'', Raw ''a'')]"
  have a1: "mergePcaps (env_with is_mergecap) ?a = (Some (Exn ''Command failed''), ?a)"
    by (simp add: mergePcaps_def store_eval)
  have a: "app_get_stop (env_with is_mergecap) [''scan1''] ?a = (?a, Send 500 ''Command failed'')"
    using stop_failure_split [where containerNames = "[''scan1'']" and e = "env_with is_mergecap"
        and st = ?a and err = "Exn ''Command failed''" and ?st1.0 = ?a] a1
    by simp
  let ?b = "[(''dumpfile_scan1.pcap'', Raw ''a''), (''dumpfile_scan2.pcap'', Raw ''b'')]"
  let ?b1 = "[(''dumpfile_scan1.pcap'', Raw ''a''), (''dumpfile_scan2.pcap'', Raw ''b''),
       (''merged.pcap'', Raw ''pcap'')]"
  have b1: "mergePcaps (env_with is_decode_merged) ?b = (None, ?b1)"
    by (simp add: mergePcaps_def store_eval)
  have b2: "pcapToJson (env_with is_decode_merged) mergedPcapFile jsonOutputFile ?b1 =
      (Some (Exn ''Command failed''), ?b1)"
    by (simp add: pcapToJson_def store_eval)
  have b: "app_get_stop (env_with is_decode_merged) [''scan1'', ''scan2''] ?b =
      (?b1, Send 500 ''Command failed'')"
    using stop_failure_split [where containerNames = "[''scan1'', ''scan2'']"
        and e = "env_with is_decode_merged" and st = ?b and err = "Exn ''Command failed''"
        and ?st1.0 = ?b1 and ?st2.0 = ?b1] b1 b2
    by simp
  let ?cfg = "JObj [(''ip'', JStr ''1.2.3.4'')]"
  let ?fs = "''(ip.addr == 1.2.3.4)''"
  let ?c = "[(''dumpfile_scan1.pcap'', Raw ''a''), (''config.json'', Json ?cfg)]"
  let ?c1 = "[(''dumpfile_scan1.pcap'', Raw ''a''), (''config.json'', Json ?cfg),
       (''merged.pcap'', Raw ''pcap'')]"
  let ?c2 = "[(''dumpfile_scan1.pcap'', Raw ''a''), (''config.json'', Json ?cfg),
       (''merged.pcap'', Raw ''pcap''), (''output.json'', Json ?rec)]"
  let ?c3 = "[(''dumpfile_scan1.pcap'', Raw ''a''), (''config.json'', Json ?cfg),
       (''merged.pcap'', Raw ''pcap''), (''output.json'', Json ?rec),
       (''filtered.pcap'', Raw ''pcap'')]"
  have cfg: "getLatestConfig ?c2 = Inr (Some ?cfg)" "truthy ?cfg"
    "readFile ?c2 jsonOutputFile = Inr (Json ?rec)" "JSON_parse (Json ?rec) = Inr ?rec"
    by (simp_all add: getLatestConfig_def readFile_def JSON_parse_def store_eval)
  have fs: "buildWiresharkFilterFromConfig ?cfg = Inr ?fs"
    using build_strings [of "[(''ip'', ''1.2.3.4'')]"]
    by (simp add: config_of_def compile_eval)
  let ?e = "env_with is_tshark_filter"
  have c1: "mergePcaps ?e ?c = (None, ?c1)"
    by (simp add: mergePcaps_def store_eval)
  have c2: "pcapToJson ?e mergedPcapFile jsonOutputFile ?c1 = (None, ?c2)"
    by (simp add: pcapToJson_def store_eval)
  have c3: "exec ?e (if ?fs \<noteq> [] then TsharkFilter mergedPcapFile ?fs filteredPcapFile
                     else Cp mergedPcapFile filteredPcapFile) ?c2 =
      (Some (Exn ''Command failed''), ?c2)"
    by (simp add: store_eval)
  have c: "app_get_stop ?e [''scan1''] ?c =
      (?c2, StopJson [(''scan1'', success)] ?rec (Some ko) (Some ''Filtering failed: Command failed''))"
    using stop_failure_split [where containerNames = "[''scan1'']" and e = ?e and st = ?c
        and ?st1.0 = ?c1 and ?st2.0 = ?c2 and config = ?cfg and filterString = ?fs
        and jsonData = "Json ?rec" and decoded = ?rec and ferr = "Exn ''Command failed''"
        and ?st3.0 = ?c2]
      c1 c2 cfg fs c3
    by (simp add: env_with_def)
  let ?d = "env_with is_decode_filtered"
  have d1: "mergePcaps ?d ?c = (None, ?c1)"
    by (simp add: mergePcaps_def store_eval)
  have d2: "pcapToJson ?d mergedPcapFile jsonOutputFile ?c1 = (None, ?c2)"
    by (simp add: pcapToJson_def store_eval)
  have d3: "exec ?d (if ?fs \<noteq> [] then TsharkFilter mergedPcapFile ?fs filteredPcapFile
                     else Cp mergedPcapFile filteredPcapFile) ?c2 = (None, ?c3)"
    "exec ?d (TsharkJson filteredPcapFile filteredJsonFile) ?c3 = (Some (Exn ''Command failed''), ?c3)"
    by (simp_all add: store_eval)
  have d: "app_get_stop ?d [''scan1''] ?c =
      (?c3, StopJson [(''scan1'', success)] ?rec (Some ko) (Some ''Filtering failed: Command failed''))"
    using stop_failure_split [where containerNames = "[''scan1'']" and e = ?d and st = ?c
        and ?st1.0 = ?c1 and ?st2.0 = ?c2 and config = ?cfg and filterString = ?fs
        and jsonData = "Json ?rec" and decoded = ?rec and ferr = "Exn ''Command failed''"
        and ?st3.0 = ?c3 and ?st4.0 = ?c3]
      d1 d2 cfg fs d3
    by (simp add: env_with_def)
  let ?g = "[(''dumpfile_scan1.pcap'', Raw ''a''), (''config.json'', Json (JObj []))]"
  let ?g1 = "[(''dumpfile_scan1.pcap'', Raw ''a''), (''config.json'', Json (JObj [])),
       (''merged.pcap'', Raw ''pcap'')]"
  let ?g2 = "[(''dumpfile_scan1.pcap'', Raw ''a''), (''config.json'', Json (JObj [])),
       (''merged.pcap'', Raw ''pcap''), (''output.json'', Json ?rec)]"
  let ?g3 = "[(''dumpfile_scan1.pcap'', Raw ''a''), (''config.json'', Json (JObj [])),
       (''merged.pcap'', Raw ''pcap''), (''output.json'', Json ?rec),
       (''filtered.pcap'', Raw ''pcap'')]"
  let ?g4 = "[(''dumpfile_scan1.pcap'', Raw ''a''), (''config.json'', Json (JObj [])),
       (''merged.pcap'', Raw ''pcap''), (''output.json'', Json ?rec),
       (''filtered.pcap'', Raw ''pcap''), (''filtered.json'', Raw ''x'')]"
  have gcfg: "getLatestConfig ?g2 = Inr (Some (JObj []))" "truthy (JObj [])"
    "readFile ?g2 jsonOutputFile = Inr (Json ?rec)"
    "buildWiresharkFilterFromConfig (JObj []) = Inr []"
    by (simp_all add: getLatestConfig_def readFile_def JSON_parse_def store_eval
        buildWiresharkFilterFromConfig_def build_steps_def push_multi_def multiFilter_def
        push_packetSizeMin_def push_packetSizeMax_def push_timeRange_def)
  let ?m = "env_filtered_json None"
  have m1: "mergePcaps ?m ?g = (None, ?g1)"
    by (simp add: mergePcaps_def store_eval)
  have m2: "pcapToJson ?m mergedPcapFile jsonOutputFile ?g1 = (None, ?g2)"
    by (simp add: pcapToJson_def store_eval)
  have m3: "exec ?m (if [] \<noteq> ([] :: string) then TsharkFilter mergedPcapFile [] filteredPcapFile
                     else Cp mergedPcapFile filteredPcapFile) ?g2 = (None, ?g3)"
    "exec ?m (TsharkJson filteredPcapFile filteredJsonFile) ?g3 = (None, ?g3)"
    "map_of ?g3 filteredJsonFile = None"
    by (simp_all add: store_eval)
  have m: "app_get_stop ?m [''scan1'', ''scan2''] ?g =
      (?g3, StopJson [(''scan1'', success), (''scan2'', failed)] ?rec (Some ko)
        (Some ''Filtered JSON file not found after filtering.''))"
    using stop_failure_split [where containerNames = "[''scan1'', ''scan2'']" and e = ?m
        and st = ?g and ?st1.0 = ?g1 and ?st2.0 = ?g2 and config = "JObj []"
        and filterString = "[]" and jsonData = "Json ?rec" and decoded = ?rec
        and ?st3.0 = ?g3 and ?st4.0 = ?g3]
      m1 m2 gcfg cfg(4) m3
    by (simp add: env_filtered_json_def)
  let ?u = "env_filtered_json (Some (Raw ''x''))"
  have u1: "mergePcaps ?u ?g = (None, ?g1)"
    by (simp add: mergePcaps_def store_eval)
  have u2: "pcapToJson ?u mergedPcapFile jsonOutputFile ?g1 = (None, ?g2)"
    by (simp add: pcapToJson_def store_eval)
  have u3: "exec ?u (if [] \<noteq> ([] :: string) then TsharkFilter mergedPcapFile [] filteredPcapFile
                     else Cp mergedPcapFile filteredPcapFile) ?g2 = (None, ?g3)"
    "exec ?u (TsharkJson filteredPcapFile filteredJsonFile) ?g3 = (None, ?g4)"
    "map_of ?g4 filteredJsonFile = Some (Raw ''x'')"
    "JSON_parse (Raw ''x'') = Inl (Exn ''Unexpected token in JSON'')"
    by (simp_all add: store_eval JSON_parse_def)
  have u: "app_get_stop ?u [''scan1'', ''scan2''] ?g =
      (?g4, StopJson [(''scan1'', success), (''scan2'', failed)] ?rec (Some ko)
        (Some ''Filtering failed: Unexpected token in JSON''))"
    using stop_failure_split [where containerNames = "[''scan1'', ''scan2'']" and e = ?u
        and st = ?g and ?st1.0 = ?g1 and ?st2.0 = ?g2 and config = "JObj []"
        and filterString = "[]" and jsonData = "Json ?rec" and decoded = ?rec
        and ?st3.0 = ?g3 and ?st4.0 = ?g4 and c = "Raw ''x''"
        and ferr = "Exn ''Unexpected token in JSON''"]
      u1 u2 gcfg cfg(4) u3
    by (simp add: env_filtered_json_def)
  from a b c d m u show ?thesis
    by (intro conjI)
qed

section \<open>The merge inputs, and a configuration with a number\<close>

lemma pcapFiles_set:
  "set (pcapFiles st) = {file \<in> set (readdir st). endsWith file ''.pcap'' \<and> file \<noteq> mergedPcapFile}"
  by (auto simp: pcapFiles_alt)

lemma mergePcaps_command:
  "pcapFiles st \<noteq> [] \<Longrightarrow>
   mergePcaps e st = exec e (Mergecap mergedPcapFile (pcapFiles st)) (unlink st mergedPcapFile)"
  by (simp add: mergePcaps_def Let_def del: exec.simps)

text \<open>
  C2 at a failing input. A first \<^verbatim>\<open>GET /stop\<close> with a persisted configuration leaves
  \<^verbatim>\<open>filtered.pcap\<close> in the store; it is no raw capture, and a second \<^verbatim>\<open>GET /stop\<close> hands
  it to \<^verbatim>\<open>mergecap\<close> together with the raw capture.
\<close>

theorem second_stop_merges_filtered:
  "fst (app_get_stop (env_with never) [''scan1'']
         [(''dumpfile_scan1.pcap'', Raw ''a''), (''config.json'', Json (JObj []))]) =
     [(''dumpfile_scan1.pcap'', Raw ''a''), (''config.json'', Json (JObj [])),
      (''merged.pcap'', Raw ''pcap''),
      (''output.json'', Json (JArr [JObj [(''_index'', JStr ''packets'')]])),
      (''filtered.pcap'', Raw ''pcap''),
      (''filtered.json'', Json (JArr [JObj [(''_index'', JStr ''packets'')]]))]
   \<and> \<not> isRawCapture ''filtered.pcap''
   \<and> mergePcaps (env_with never)
       [(''dumpfile_scan1.pcap'', Raw ''a''), (''config.json'', Json (JObj [])),
        (''merged.pcap'', Raw ''pcap''),
        (''output.json'', Json (JArr [JObj [(''_index'', JStr ''packets'')]])),
        (''filtered.pcap'', Raw ''pcap''),
        (''filtered.json'', Json (JArr [JObj [(''_index'', JStr ''packets'')]]))] =
     exec (env_with never) (Mergecap ''merged.pcap'' [''dumpfile_scan1.pcap'', ''filtered.pcap''])
       [(''dumpfile_scan1.pcap'', Raw ''a''), (''config.json'', Json (JObj [])),
        (''output.json'', Json (JArr [JObj [(''_index'', JStr ''packets'')]])),
        (''filtered.pcap'', Raw ''pcap''),
        (''filtered.json'', Json (JArr [JObj [(''_index'', JStr ''packets'')]]))]"
proof -
  let ?e = "env_with never"
  let ?rec = "JArr [JObj [(''_index'', JStr ''packets'')]]"
  let ?s0 = "[(''dumpfile_scan1.pcap'', Raw ''a''), (''config.json'', Json (JObj []))]"
  let ?s1 = "[(''dumpfile_scan1.pcap'', Raw ''a''), (''config.json'', Json (JObj [])),
      (''merged.pcap'', Raw ''pcap'')]"
  let ?s2 = "[(''dumpfile_scan1.pcap'', Raw ''a''), (''config.json'', Json (JObj [])),
      (''merged.pcap'', Raw ''pcap''), (''output.json'', Json ?rec)]"
  let ?s3 = "[(''dumpfile_scan1.pcap'', Raw ''a''), (''config.json'', Json (JObj [])),
      (''merged.pcap'', Raw ''pcap''), (''output.json'', Json ?rec),
      (''filtered.pcap'', Raw ''pcap''), (''filtered.json'', Json ?rec)]"
  have m: "mergePcaps ?e ?s0 = (None, ?s1)"
    by (simp add: mergePcaps_def store_eval)
  have d: "pcapToJson ?e mergedPcapFile jsonOutputFile ?s1 = (None, ?s2)"
    by (simp add: pcapToJson_def store_eval)
  have g: "getLatestConfig ?s2 = Inr (Some (JObj []))" "readFile ?s2 jsonOutputFile = Inr (Json ?rec)"
    by (simp_all add: getLatestConfig_def readFile_def JSON_parse_def store_eval)
  have b: "buildWiresharkFilterFromConfig (JObj []) = Inr []"
    by (rule build_unpopulated) simp
  have f: "filterPcapAndJson ?e mergedPcapFile [] ?s2 = ((ok, Some ?rec, None), ?s3)"
    by (simp add: filterPcapAndJson_def pcapToJson_def JSON_parse_def store_eval)
  have sf: "stop_filter ?e (Some (JObj [])) ?s2 = (?s3, Inr (Some ok, Some ?rec, None))"
    by (simp add: stop_filter_def b f)
  have "stop_try ?e (broadcast (agent_stop ?e) [''scan1'']) ?s0 =
      (?s3, Inr (StopJson (broadcast (agent_stop ?e) [''scan1'']) ?rec (Some ok) None))"
    by (simp add: stop_try_def m d g sf pcapData_of_def)
  then have one: "fst (app_get_stop ?e [''scan1''] ?s0) = ?s3"
    by (simp add: app_get_stop_def)
  have p: "pcapFiles ?s3 = [''dumpfile_scan1.pcap'', ''filtered.pcap'']"
    by (simp add: store_eval)
  have two: "mergePcaps ?e ?s3 =
      exec ?e (Mergecap ''merged.pcap'' [''dumpfile_scan1.pcap'', ''filtered.pcap''])
        [(''dumpfile_scan1.pcap'', Raw ''a''), (''config.json'', Json (JObj [])),
         (''output.json'', Json ?rec), (''filtered.pcap'', Raw ''pcap''),
         (''filtered.json'', Json ?rec)]"
    using mergePcaps_command [of ?s3 ?e]
    by (simp add: p del: exec.simps) (simp add: unlink_def mergedPcapFile_def del: exec.simps)
  have three: "\<not> isRawCapture ''filtered.pcap''"
    by (simp add: isRawCapture_def)
  from one three two show ?thesis
    by (intro conjI)
qed

text \<open>
  C6 at a failing input. With a merged capture in the store, the body
  \<^verbatim>\<open>{ip: "1.2.3.4", port: 80}\<close> of the repository's own test is saved and then answered
  with status 500, in every environment.
\<close>

theorem submit_number_fails:
  "app_post_config e [(''merged.pcap'', Raw ''m'')]
     (JObj [(''ip'', JStr ''1.2.3.4''), (''port'', JNum 80)]) =
     ([(''merged.pcap'', Raw ''m''),
       (''config.json'', Json (JObj [(''ip'', JStr ''1.2.3.4''), (''port'', JNum 80)]))],
      ConfigJson 500 ''Failed to save configuration'' None None)"
proof -
  let ?cfg = "JObj [(''ip'', JStr ''1.2.3.4''), (''port'', JNum 80)]"
  have ip: "push_multi ?cfg ''ip'' cb_ip [] = Inr [''(ip.addr == 1.2.3.4)'']"
    by (simp add: push_multi_def multiFilter_def field_values_def js_trim_def is_space_def
        cb_ip_def)
  have port: "push_multi ?cfg ''port'' cb_port fs = Inl not_a_function" for fs
    by (simp add: push_multi_def multiFilter_def)
  have "buildWiresharkFilterFromConfig ?cfg = Inl not_a_function"
    by (simp add: buildWiresharkFilterFromConfig_def build_steps_def ip port)
  then show ?thesis
    by (simp add: app_post_config_def saveConfig_def store_eval)
qed

text \<open>On string-valued configurations the answer is 200 or 422.\<close>

lemma config_response_status:
  "\<exists>m d err. config_response r = ConfigJson 200 m d err
            \<or> config_response r = ConfigJson 422 m d err"
  by (cases r) (simp add: config_response_def)

lemma truthy_config_of: "truthy (config_of kvs)"
  by (simp add: config_of_def)

lemma submit_strings_answered:
  "\<exists>m d err. snd (app_post_config e st (config_of kvs)) = ConfigJson 200 m d err
            \<or> snd (app_post_config e st (config_of kvs)) = ConfigJson 422 m d err"
proof -
  have "\<exists>r. snd (app_post_config e st (config_of kvs)) = config_response r"
    by (cases "filterPcapAndJson e mergedPcapFile (closed_form (map_of kvs))
          (saveConfig st (config_of kvs))")
      (auto simp: app_post_config_def build_strings Let_def truthy_config_of)
  then show ?thesis
    using config_response_status by metis
qed

end
